theory Spec2Isabelle
  imports Main "HOL-Library.Extended_Nat" "HOL-Library.Sublist"
begin

section \<open>Strings of UTF-16 code units\<close>

text \<open>
  A JavaScript string is a sequence of UTF-16 code units. A code unit is modelled as a
  natural number (below 65536 in every real string; nothing below depends on the bound),
  and a string as the list of its code units. \<open>js\<close> reads an ASCII literal.
\<close>

type_synonym jstring = "nat list"

definition js :: "string \<Rightarrow> jstring" where
  "js s = map of_char s"

text \<open>The exceptions and the one way of not returning that the code could show.\<close>

datatype jserror = TypeError | Diverges

text \<open>
  \<open>xs[i]\<close> followed by a method call: reading past the end gives \<open>undefined\<close>, and the
  call on it throws a TypeError.
\<close>

fun elemAt :: "'a list \<Rightarrow> nat \<Rightarrow> jserror + 'a" where
  "elemAt [] i = Inl TypeError"
| "elemAt (x # xs) 0 = Inr x"
| "elemAt (x # xs) (Suc i) = elemAt xs i"

text \<open>\<open>xs[i]?.trim()\<close> and friends: reading past the end gives \<open>undefined\<close>, kept as None.\<close>

fun elemOpt :: "'a list \<Rightarrow> nat \<Rightarrow> 'a option" where
  "elemOpt [] i = None"
| "elemOpt (x # xs) 0 = Some x"
| "elemOpt (x # xs) (Suc i) = elemOpt xs i"

text \<open>
  White space and line terminators of ECMAScript (what \<open>trim\<close> removes and \<open>\s\<close> matches):
  U+0009..U+000D, U+0020, U+00A0, U+1680, U+2000..U+200A, U+2028, U+2029, U+202F, U+205F,
  U+3000, U+FEFF.
\<close>

definition space_units :: "(nat \<times> nat) list" where
  "space_units = [(9, 13), (32, 32), (160, 160), (5760, 5760), (8192, 8202), (8232, 8233),
     (8239, 8239), (8287, 8287), (12288, 12288), (65279, 65279)]"

definition in_ranges :: "(nat \<times> nat) list \<Rightarrow> nat \<Rightarrow> bool" where
  "in_ranges rs x = list_ex (\<lambda>(lo, hi). lo \<le> x \<and> x \<le> hi) rs"

definition isSpace :: "nat \<Rightarrow> bool" where
  "isSpace x = in_ranges space_units x"

definition trim :: "jstring \<Rightarrow> jstring" where
  "trim s = rev (dropWhile isSpace (rev (dropWhile isSpace s)))"

fun startsWith :: "jstring \<Rightarrow> jstring \<Rightarrow> bool" where
  "startsWith s [] = True"
| "startsWith [] (p # ps) = False"
| "startsWith (x # xs) (p # ps) = (x = p \<and> startsWith xs ps)"

fun includesStr :: "jstring \<Rightarrow> jstring \<Rightarrow> bool" where
  "includesStr [] p = startsWith [] p"
| "includesStr (x # xs) p = (startsWith (x # xs) p \<or> includesStr xs p)"

fun indexOf :: "jstring \<Rightarrow> jstring \<Rightarrow> nat option" where
  "indexOf [] p = (if p = [] then Some 0 else None)"
| "indexOf (x # xs) p = (if startsWith (x # xs) p then Some 0 else map_option Suc (indexOf xs p))"

text \<open>\<open>s.replace(p, r)\<close> with a string pattern: the first occurrence only.\<close>

fun replaceStr :: "jstring \<Rightarrow> jstring \<Rightarrow> jstring \<Rightarrow> jstring" where
  "replaceStr [] p r = (if p = [] then r else [])"
| "replaceStr (x # xs) p r =
     (if startsWith (x # xs) p then r @ drop (length p) (x # xs) else x # replaceStr xs p r)"

text \<open>
  \<open>s.split(sep)\<close> with a string separator. \<open>acc\<close> holds the piece being read, reversed.
  An empty separator splits into single code units.
\<close>

function splitAcc :: "jstring \<Rightarrow> jstring \<Rightarrow> jstring \<Rightarrow> jstring list" where
  "splitAcc sep acc s =
     (if s = [] then [rev acc]
      else if sep \<noteq> [] \<and> startsWith s sep then rev acc # splitAcc sep [] (drop (length sep) s)
      else splitAcc sep (hd s # acc) (tl s))"
  by pat_completeness auto
termination
  by (relation "measure (\<lambda>(sep, acc, s). length s)") auto

definition split :: "jstring \<Rightarrow> jstring \<Rightarrow> jstring list" where
  "split s sep = (if sep = [] then map (\<lambda>x. [x]) s else splitAcc sep [] s)"

fun join :: "jstring list \<Rightarrow> jstring \<Rightarrow> jstring" where
  "join [] sep = []"
| "join [x] sep = x"
| "join (x # y # ys) sep = x @ sep @ join (y # ys) sep"

text \<open>
  \<open>String.prototype.toUpperCase\<close> and \<open>toLowerCase\<close> follow the Unicode case tables of the
  JavaScript runtime, which are no part of the repository. Where the code applies
  \<open>toUpperCase\<close> to text that may hold any character (a whole log line, the first code
  unit of a word of a file name), the functions below take it as a parameter \<open>upper\<close>,
  and every statement about them holds for every \<open>upper\<close>. Where the text is ASCII by
  construction (a \<open>\w+\<close> capture, a model name that passed the ASCII identifier test),
  the conversion only changes the ASCII letters, and is \<open>asciiUpper\<close> or \<open>asciiLower\<close>.
\<close>

definition upperUnit :: "nat \<Rightarrow> nat" where
  "upperUnit x = (if 97 \<le> x \<and> x \<le> 122 then x - 32 else x)"

definition lowerUnit :: "nat \<Rightarrow> nat" where
  "lowerUnit x = (if 65 \<le> x \<and> x \<le> 90 then x + 32 else x)"

definition asciiUpper :: "jstring \<Rightarrow> jstring" where
  "asciiUpper s = map upperUnit s"

definition asciiLower :: "jstring \<Rightarrow> jstring" where
  "asciiLower s = map lowerUnit s"

section \<open>Numbers\<close>

text \<open>
  \<open>parseInt(digits, 10)\<close> returns a double: the integer the digits denote, rounded to the
  nearest double (ties to even), and Infinity from \<open>2 ^ 1024\<close> on. The values are
  non-negative integers or Infinity, modelled as \<open>enat\<close>. (Past 20 significant digits
  ECMAScript lets an engine approximate; the rounding below is the exact one, as V8 does.)
\<close>

fun bitlen :: "nat \<Rightarrow> nat" where
  "bitlen n = (if n = 0 then 0 else Suc (bitlen (n div 2)))"

declare bitlen.simps [simp del]

definition roundTo :: "nat \<Rightarrow> nat \<Rightarrow> nat" where
  "roundTo n e =
     (let q = n div 2 ^ e;
          r = n mod 2 ^ e
      in (if 2 ^ e < 2 * r \<or> (2 * r = 2 ^ e \<and> odd q) then q + 1 else q) * 2 ^ e)"

text \<open>Below \<open>2 ^ 53\<close> every integer is a double; from \<open>2 ^ 1024\<close> on the result is Infinity.\<close>

definition exactBelow :: nat where
  "exactBelow = 2 ^ 53"

definition infinityFrom :: nat where
  "infinityFrom = 2 ^ 1024"

definition toDouble :: "nat \<Rightarrow> enat" where
  "toDouble n =
     (if n < exactBelow then enat n
      else
        let v = roundTo n (bitlen n - 53)
        in if infinityFrom \<le> v then \<infinity> else enat v)"

definition digitsVal :: "jstring \<Rightarrow> nat" where
  "digitsVal ds = foldl (\<lambda>a d. 10 * a + (d - 48)) 0 ds"

definition parseInt :: "jstring \<Rightarrow> enat" where
  "parseInt ds = toDouble (digitsVal ds)"

section \<open>Regular expressions\<close>

text \<open>
  The patterns of the code use literals, character classes, sequence, alternation,
  greedy and lazy repetition, capture groups and the anchors \<open>^\<close> and \<open>$\<close> (never with
  the \<open>m\<close> flag). \<open>Star True r\<close> is \<open>r*\<close>, \<open>Star False r\<close> is \<open>r*?\<close>. A class is a list
  of code unit ranges, possibly negated.
\<close>

datatype regex =
    Chr nat
  | Cls bool "(nat \<times> nat) list"
  | Seq regex regex
  | Alt regex regex
  | Star bool regex
  | Grp nat regex
  | Bos
  | Eos
  | Empty

type_synonym caps = "(nat \<times> jstring) list"

text \<open>
  The \<open>i\<close> flag compares canonicalised code units. Without the \<open>u\<close> flag a code unit
  outside ASCII is never canonicalised to an ASCII one, and every pattern that carries
  the flag here is ASCII, so under the flag a code unit matches a pattern code unit when
  it is that unit or its ASCII letter of the other case.
\<close>

definition swapcase :: "nat \<Rightarrow> nat" where
  "swapcase x =
     (if 97 \<le> x \<and> x \<le> 122 then x - 32 else if 65 \<le> x \<and> x \<le> 90 then x + 32 else x)"

definition chr_eq :: "bool \<Rightarrow> nat \<Rightarrow> nat \<Rightarrow> bool" where
  "chr_eq ci p x = (x = p \<or> ci \<and> swapcase x = p)"

definition cls_mem :: "bool \<Rightarrow> (nat \<times> nat) list \<Rightarrow> nat \<Rightarrow> bool" where
  "cls_mem ci rs x = (in_ranges rs x \<or> ci \<and> in_ranges rs (swapcase x))"

text \<open>
  The backtracking matcher. It works through a stack of what is still to be matched:
  a pattern, the end of a group (with the input at the group's start), or the check
  after one round of a repetition (with the input length at the round's start: a round
  that consumed nothing is rejected, as ECMAScript does). The first alternative that
  lets the whole stack match wins. \<open>n\<close> is the length of the whole input, for \<open>^\<close>.
  The result is the captures (latest first) and the input left after the match.
\<close>

datatype frame = R regex | Loop bool regex nat | Close nat jstring

fun weight :: "nat \<Rightarrow> frame \<Rightarrow> nat" where
  "weight l (R r) = 2 * size r + 1"
| "weight l (Loop g r len) = (if l < len then 2 * size r + 5 else 1)"
| "weight l (Close i s0) = 1"

function backtrack :: "bool \<Rightarrow> nat \<Rightarrow> frame list \<Rightarrow> jstring \<Rightarrow> caps \<Rightarrow> (caps \<times> jstring) option" where
  "backtrack ci n [] s c = Some (c, s)"
| "backtrack ci n (R (Chr p) # k) s c =
     (case s of [] \<Rightarrow> None
      | x # xs \<Rightarrow> if chr_eq ci p x then backtrack ci n k xs c else None)"
| "backtrack ci n (R (Cls neg rs) # k) s c =
     (case s of [] \<Rightarrow> None
      | x # xs \<Rightarrow> if cls_mem ci rs x \<noteq> neg then backtrack ci n k xs c else None)"
| "backtrack ci n (R (Seq a b) # k) s c = backtrack ci n (R a # R b # k) s c"
| "backtrack ci n (R (Alt a b) # k) s c =
     (case backtrack ci n (R a # k) s c of
        Some y \<Rightarrow> Some y
      | None \<Rightarrow> backtrack ci n (R b # k) s c)"
| "backtrack ci n (R (Star g r) # k) s c =
     (if g then
        (case backtrack ci n (R r # Loop g r (length s) # k) s c of
           Some y \<Rightarrow> Some y
         | None \<Rightarrow> backtrack ci n k s c)
      else
        (case backtrack ci n k s c of
           Some y \<Rightarrow> Some y
         | None \<Rightarrow> backtrack ci n (R r # Loop g r (length s) # k) s c))"
| "backtrack ci n (Loop g r len # k) s c =
     (if length s < len then backtrack ci n (R (Star g r) # k) s c else None)"
| "backtrack ci n (R (Grp i r) # k) s c = backtrack ci n (R r # Close i s # k) s c"
| "backtrack ci n (Close i s0 # k) s c =
     backtrack ci n k s ((i, take (length s0 - length s) s0) # c)"
| "backtrack ci n (R Bos # k) s c = (if length s = n then backtrack ci n k s c else None)"
| "backtrack ci n (R Eos # k) s c = (if s = [] then backtrack ci n k s c else None)"
| "backtrack ci n (R Empty # k) s c = backtrack ci n k s c"
  by pat_completeness auto
termination
  by (relation "measures [\<lambda>(ci, n, k, s, c). length s,
                          \<lambda>(ci, n, k, s, c). sum_list (map (weight (length s)) k)]") auto

text \<open>Pattern shorthands.\<close>

fun Lit :: "jstring \<Rightarrow> regex" where
  "Lit [] = Empty"
| "Lit (x # xs) = Seq (Chr x) (Lit xs)"

fun Seqs :: "regex list \<Rightarrow> regex" where
  "Seqs [] = Empty"
| "Seqs [r] = r"
| "Seqs (r # q # rs) = Seq r (Seqs (q # rs))"

definition Plus :: "bool \<Rightarrow> regex \<Rightarrow> regex" where
  "Plus g r = Seq r (Star g r)"

fun Times :: "nat \<Rightarrow> regex \<Rightarrow> regex" where
  "Times 0 r = Empty"
| "Times (Suc n) r = Seq r (Times n r)"

definition Sp :: regex where
  "Sp = Cls False space_units"

definition Digit :: regex where
  "Digit = Cls False [(48, 57)]"

definition Word :: regex where
  "Word = Cls False [(48, 57), (65, 90), (95, 95), (97, 122)]"

text \<open>\<open>.\<close> matches every code unit but the line terminators.\<close>

definition Dot :: regex where
  "Dot = Cls True [(10, 10), (13, 13), (8232, 8233)]"

text \<open>
  \<open>re.exec(s)\<close> from a position (the input from there on is \<open>s\<close>): the leftmost start
  at which the pattern matches. Gives the input from the start of the match, the input
  after the match, and the captures.
\<close>

fun search :: "bool \<Rightarrow> nat \<Rightarrow> regex \<Rightarrow> jstring \<Rightarrow> (jstring \<times> jstring \<times> caps) option" where
  "search ci n r [] =
     (case backtrack ci n [R r] [] [] of Some (c, rest) \<Rightarrow> Some ([], rest, c) | None \<Rightarrow> None)"
| "search ci n r (x # xs) =
     (case backtrack ci n [R r] (x # xs) [] of
        Some (c, rest) \<Rightarrow> Some (x # xs, rest, c)
      | None \<Rightarrow> search ci n r xs)"

record rmatch =
  before :: jstring
  matched :: jstring
  after :: jstring
  groups :: caps

text \<open>\<open>s.match(re)\<close> and \<open>re.exec(s)\<close> for a pattern without the \<open>g\<close> flag.\<close>

definition exec :: "bool \<Rightarrow> regex \<Rightarrow> jstring \<Rightarrow> rmatch option" where
  "exec ci r s =
     (case search ci (length s) r s of
        None \<Rightarrow> None
      | Some (s0, rest, c) \<Rightarrow>
          Some \<lparr>before = take (length s - length s0) s,
                matched = take (length s0 - length rest) s0,
                after = rest,
                groups = c\<rparr>)"

definition test :: "bool \<Rightarrow> regex \<Rightarrow> jstring \<Rightarrow> bool" where
  "test ci r s = (exec ci r s \<noteq> None)"

text \<open>
  \<open>m[i]\<close> of a match. Every group of the patterns below takes part in every match of its
  pattern, so the value is never \<open>undefined\<close>.
\<close>

definition grp :: "rmatch \<Rightarrow> nat \<Rightarrow> jstring" where
  "grp m i = (case map_of (groups m) i of Some t \<Rightarrow> t | None \<Rightarrow> [])"

text \<open>\<open>s.replace(re, rep)\<close> without the \<open>g\<close> flag: the first match only.\<close>

definition replaceRe :: "bool \<Rightarrow> regex \<Rightarrow> jstring \<Rightarrow> jstring \<Rightarrow> jstring" where
  "replaceRe ci r rep s =
     (case exec ci r s of None \<Rightarrow> s | Some m \<Rightarrow> before m @ rep @ after m)"

text \<open>
  \<open>s.replace(re, rep)\<close> with the \<open>g\<close> flag, and \<open>s.matchAll(re)\<close>: every match from left to
  right; after an empty match the scan moves on by one code unit.
\<close>

function replaceAllFrom :: "bool \<Rightarrow> nat \<Rightarrow> regex \<Rightarrow> jstring \<Rightarrow> jstring \<Rightarrow> jstring" where
  "replaceAllFrom ci n r rep s =
     (case backtrack ci n [R r] s [] of
        Some (c, rest) \<Rightarrow>
          if length rest < length s then rep @ replaceAllFrom ci n r rep rest
          else (case s of [] \<Rightarrow> rep | x # xs \<Rightarrow> rep @ x # replaceAllFrom ci n r rep xs)
      | None \<Rightarrow> (case s of [] \<Rightarrow> [] | x # xs \<Rightarrow> x # replaceAllFrom ci n r rep xs))"
  by pat_completeness auto
termination
  by (relation "measure (\<lambda>(ci, n, r, rep, s). length s)") auto

definition replaceAll :: "bool \<Rightarrow> regex \<Rightarrow> jstring \<Rightarrow> jstring \<Rightarrow> jstring" where
  "replaceAll ci r rep s = replaceAllFrom ci (length s) r rep s"

function matchAllFrom :: "bool \<Rightarrow> nat \<Rightarrow> regex \<Rightarrow> jstring \<Rightarrow> caps list" where
  "matchAllFrom ci n r s =
     (case backtrack ci n [R r] s [] of
        Some (c, rest) \<Rightarrow>
          if length rest < length s then c # matchAllFrom ci n r rest
          else (case s of [] \<Rightarrow> [c] | x # xs \<Rightarrow> c # matchAllFrom ci n r xs)
      | None \<Rightarrow> (case s of [] \<Rightarrow> [] | x # xs \<Rightarrow> matchAllFrom ci n r xs))"
  by pat_completeness auto
termination
  by (relation "measure (\<lambda>(ci, n, r, s). length s)") auto

definition matchAll :: "bool \<Rightarrow> regex \<Rightarrow> jstring \<Rightarrow> caps list" where
  "matchAll ci r s = matchAllFrom ci (length s) r s"

text \<open>
  \<open>s.split(re)\<close> for a pattern without groups: at each position the pattern is tried;
  a match that ends where the current piece starts is passed over. \<open>acc\<close> holds the
  piece being read, reversed.
\<close>

function splitReFrom :: "bool \<Rightarrow> nat \<Rightarrow> regex \<Rightarrow> jstring \<Rightarrow> jstring \<Rightarrow> jstring list" where
  "splitReFrom ci n r acc s =
     (case s of
        [] \<Rightarrow> [rev acc]
      | x # xs \<Rightarrow>
          (case backtrack ci n [R r] s [] of
             Some (c, rest) \<Rightarrow>
               if length rest < length s then rev acc # splitReFrom ci n r [] rest
               else if acc \<noteq> [] then rev acc # splitReFrom ci n r [] s
               else splitReFrom ci n r (x # acc) xs
           | None \<Rightarrow> splitReFrom ci n r (x # acc) xs))"
  by pat_completeness auto
termination
  by (relation "measure (\<lambda>(ci, n, r, acc, s). 2 * length s + (if acc = [] then 0 else 1))") auto

definition splitRe :: "bool \<Rightarrow> regex \<Rightarrow> jstring \<Rightarrow> jstring list" where
  "splitRe ci r s =
     (if s = [] then (case backtrack ci 0 [R r] [] [] of None \<Rightarrow> [[]] | Some y \<Rightarrow> [])
      else splitReFrom ci (length s) r [] s)"

text \<open>
  \<open>while ((m = re.exec(s)) !== null) { last = m }\<close> with the \<open>g\<close> flag: each search starts
  where the match before ended, and the loop keeps the latest match. After an empty
  match the next search would start at the same place and find it again, for ever: the
  model answers \<open>Diverges\<close> there.
\<close>

function lastExec :: "bool \<Rightarrow> nat \<Rightarrow> regex \<Rightarrow> caps option \<Rightarrow> jstring \<Rightarrow> jserror + caps option" where
  "lastExec ci n r prev s =
     (case search ci n r s of
        None \<Rightarrow> Inr prev
      | Some (s0, rest, c) \<Rightarrow>
          if length rest < length s then lastExec ci n r (Some c) rest else Inl Diverges)"
  by pat_completeness auto
termination
  by (relation "measure (\<lambda>(ci, n, r, prev, s). length s)") auto

definition capOf :: "caps \<Rightarrow> nat \<Rightarrow> jstring" where
  "capOf c i = (case map_of c i of Some t \<Rightarrow> t | None \<Rightarrow> [])"

definition Opt :: "regex \<Rightarrow> regex" where
  "Opt r = Alt r Empty"

section \<open>The data model (logs/route.ts)\<close>

datatype status = Pass | Fail

record TestResult =
  name :: jstring
  status :: status
  fullName :: jstring

text \<open>
  \<open>toolDetails\<close> is an open bag of keys in the code; these are the keys it ever sets, each
  absent (None) until set. The three "changes" payloads are stored as
  \<open>JSON.parse(text)\<close> when that succeeds and as \<open>text\<close> itself when it throws: either
  way a function of \<open>text\<close>, which is what the model keeps.
\<close>

record details =
  editTarget :: "jstring option"
  editInstructions :: "jstring option"
  lineEditsCount :: "jstring option"
  edits :: "jstring list option"
  syntaxValidation :: "jstring option"
  syntaxError :: "jstring option"
  syntaxErrorDetail :: "jstring option"
  changesApplied :: "jstring option"
  changesNotApplied :: "jstring option"
  attemptedChanges :: "jstring option"
  bytesWritten :: "jstring option"
  filePath :: "jstring option"

definition noDetails :: details where
  "noDetails = \<lparr>editTarget = None, editInstructions = None, lineEditsCount = None, edits = None,
     syntaxValidation = None, syntaxError = None, syntaxErrorDetail = None,
     changesApplied = None, changesNotApplied = None, attemptedChanges = None,
     bytesWritten = None, filePath = None\<rparr>"

text \<open>
  \<open>success\<close> and \<open>error\<close>: None is \<open>null\<close> (or the absent key of a start step). A start
  step has no \<open>toolCall\<close>, \<open>toolDetails\<close> or \<open>toolResult\<close> key: None, None and the empty
  list here.
\<close>

record TrajectoryStep =
  type :: jstring
  content :: jstring
  iteration :: enat
  success :: "bool option"
  timestamp :: jstring
  toolCall :: "jstring option"
  error :: "jstring option"
  toolDetails :: "details option"
  toolResult :: "jstring list"

record labMetrics =
  labTestsPassed :: "bool option"
  labAgentSuccess :: "bool option"
  labCodeChangesMade :: "bool option"
  labNoSyntaxErrors :: "bool option"
  labConversationLength :: "enat option"
  labSuccessfulEdits :: "enat option"
  labFinalCodeFiles :: "enat option"

record DiffStats =
  agentFilesChanged :: nat
  goldenFilesChanged :: nat
  agentLines :: nat
  goldenLines :: nat

record DiffBundle =
  agentDiff :: "jstring option"
  goldenDiff :: "jstring option"
  filesChanged :: "jstring list"
  diffStats :: DiffStats

text \<open>
  The counters \<open>toolCalls\<close> and \<open>errors\<close> are doubles that grow by one per line at most; a
  string has fewer than \<open>2 ^ 53\<close> code units, so every such step is exact and the model
  counts in \<open>nat\<close>, as it does for the lengths.
\<close>

record Trajectory =
  filename :: jstring
  taskName :: jstring
  modelName :: jstring
  totalIterations :: enat
  toolCalls :: nat
  errors :: nat
  testsPassed :: nat
  totalTests :: nat
  finalSuccess :: bool
  duration :: "jstring option"
  steps :: "TrajectoryStep list"
  finalDiffs :: "DiffBundle option"
  testResults :: "TestResult list"
  labTrainingMetrics :: "labMetrics option"

section \<open>Line helpers\<close>

text \<open>
  The class of \<open>normalizeLine\<close> is written with seven emoji, but the pattern has no \<open>u\<close>
  flag: the class holds their UTF-16 code units one by one (the surrogate halves
  D83D, DD0D, DE80, DCCA, D83C, DFAF, DCDD, D83E, DDEA, and 23F1, FE0F), and matches
  a single code unit.
\<close>

definition emoji_units :: "(nat \<times> nat) list" where
  "emoji_units = [(55357, 55357), (56589, 56589), (56960, 56960), (56522, 56522),
     (55356, 55356), (57263, 57263), (56541, 56541), (9201, 9201), (65039, 65039),
     (55358, 55358), (56810, 56810)]"

definition emojiRe :: regex where
  "emojiRe = Seqs [Bos, Cls False emoji_units, Plus True Sp]"

definition normalizeLine :: "jstring \<Rightarrow> jstring" where
  "normalizeLine line = trim (replaceRe False emojiRe [] line)"

definition dateRe :: regex where
  "dateRe = Seqs [Times 4 Digit, Chr 45, Times 2 Digit, Chr 45, Times 2 Digit]"

definition clockRe :: regex where
  "clockRe = Seqs [Times 2 Digit, Chr 58, Times 2 Digit, Chr 58, Times 2 Digit]"

definition dateClockRe :: regex where
  "dateClockRe = Seqs [dateRe, Plus True Sp, clockRe]"

definition extractTimestamp :: "jstring \<Rightarrow> jstring" where
  "extractTimestamp line =
     (case exec False dateClockRe line of
        Some m \<Rightarrow> matched m
      | None \<Rightarrow> (case exec False clockRe line of Some m \<Rightarrow> matched m | None \<Rightarrow> js ''N/A''))"

section \<open>The step reconstructor (parseLogFile, the loop over the lines)\<close>

text \<open>
  The loop's variables. \<open>currentStep\<close> is a reference to an object that also sits in
  \<open>trajectory.steps\<close>: the model keeps its index in \<open>steps\<close>, and a write through the
  reference is a write at that index.
\<close>

record pstate =
  traj :: Trajectory
  currentIteration :: "enat option"
  currentStep :: "nat option"
  collectingToolResult :: bool
  toolResultBuffer :: "jstring list"

definition updStep :: "nat \<Rightarrow> (TrajectoryStep \<Rightarrow> TrajectoryStep) \<Rightarrow> pstate \<Rightarrow> pstate" where
  "updStep i f st =
     st\<lparr>traj := (traj st)\<lparr>steps := (steps (traj st))[i := f (steps (traj st) ! i)]\<rparr>\<rparr>"

text \<open>\<open>currentStep.toolDetails = currentStep.toolDetails || {}\<close>, then a write into it.\<close>

definition setDetail :: "nat \<Rightarrow> (details \<Rightarrow> details) \<Rightarrow> pstate \<Rightarrow> pstate" where
  "setDetail i f st =
     updStep i (\<lambda>s. s\<lparr>toolDetails :=
        Some (f (case toolDetails s of None \<Rightarrow> noDetails | Some d \<Rightarrow> d))\<rparr>) st"

text \<open>
  \<open>line.split(label)[1]?.trim()\<close> followed by a truthiness test: the trimmed text after
  the first occurrence of the label, None when it is \<open>undefined\<close> or empty.
\<close>

definition truthy :: "jstring option \<Rightarrow> jstring option" where
  "truthy v = (case v of None \<Rightarrow> None | Some x \<Rightarrow> if x = [] then None else Some x)"

definition afterLabel :: "jstring \<Rightarrow> jstring \<Rightarrow> jstring option" where
  "afterLabel line label = truthy (map_option trim (elemOpt (split line label) 1))"

definition iterationRe :: regex where
  "iterationRe = Seqs [Lit (js ''Iteration ''), Grp 1 (Plus True Digit)]"

definition toolCallRe :: regex where
  "toolCallRe = Seqs [Lit (js ''Tool call ''), Plus True Digit, Lit (js '': ''), Grp 1 (Plus True Word)]"

definition editRe :: regex where
  "editRe = Seqs [Lit (js ''HARNESS: Edit ''), Plus True Digit, Chr 58]"

definition writingRe :: regex where
  "writingRe = Seqs [Lit (js ''Writing ''), Grp 1 (Plus True Digit), Lit (js '' characters to ''),
     Grp 2 (Plus True Dot)]"

definition successRe :: regex where
  "successRe = Seqs [Lit (js ''Tool 0 result success: ''), Grp 1 (Plus True Word)]"

text \<open>Rule 2: the loop over the comma-separated parts of a Dataset/Agent/Model line.\<close>

fun datasetParts :: "Trajectory \<Rightarrow> jstring list \<Rightarrow> jserror + Trajectory" where
  "datasetParts t [] = Inr t"
| "datasetParts t (part # parts) =
     (if includesStr part (js ''Model:'') then
        (case elemAt (split part (js ''Model:'')) 1 of
           Inl e \<Rightarrow> Inl e
         | Inr x \<Rightarrow> datasetParts (t\<lparr>modelName := trim x\<rparr>) parts)
      else if includesStr part (js ''Task:'') then
        (case elemAt (split part (js ''Task:'')) 1 of
           Inl e \<Rightarrow> Inl e
         | Inr x \<Rightarrow> datasetParts (t\<lparr>taskName := trim x\<rparr>) parts)
      else datasetParts t parts)"

text \<open>Rule 1: a start step is pushed.\<close>

definition startRule :: "pstate \<Rightarrow> jstring \<Rightarrow> pstate" where
  "startRule st rawLine =
     (let stamp = (case exec False dateRe rawLine of
                     Some m \<Rightarrow> matched m
                   | None \<Rightarrow> extractTimestamp rawLine)
      in st\<lparr>traj := (traj st)\<lparr>steps := steps (traj st) @
           [\<lparr>type = js ''start'', content = js ''Starting benchmark run'', iteration = 0,
             success = Some True, timestamp = stamp, toolCall = None, error = None,
             toolDetails = None, toolResult = []\<rparr>]\<rparr>\<rparr>)"

text \<open>Rule 3: the iteration number.\<close>

definition iterationRule :: "pstate \<Rightarrow> jstring \<Rightarrow> pstate" where
  "iterationRule st line =
     (case exec False iterationRe line of
        None \<Rightarrow> st
      | Some m \<Rightarrow>
          (let it = parseInt (grp m 1)
           in st\<lparr>currentIteration := Some it,
                 traj := (traj st)\<lparr>totalIterations := max (totalIterations (traj st)) it\<rparr>\<rparr>))"

text \<open>Rule 4: a tool call starts a new step, which becomes the current one.\<close>

definition toolCallRule :: "pstate \<Rightarrow> enat \<Rightarrow> jstring \<Rightarrow> jstring \<Rightarrow> pstate" where
  "toolCallRule st it rawLine line =
     (case exec False toolCallRe line of
        None \<Rightarrow> st
      | Some m \<Rightarrow>
          (let toolName = grp m 1
           in st\<lparr>traj := (traj st)\<lparr>toolCalls := toolCalls (traj st) + 1,
                   steps := steps (traj st) @
                     [\<lparr>type = js ''iteration'', content = js ''Executing '' @ toolName,
                       iteration = it, success = None, timestamp = extractTimestamp rawLine,
                       toolCall = Some toolName, error = None, toolDetails = Some noDetails,
                       toolResult = []\<rparr>]\<rparr>,
                 currentStep := Some (length (steps (traj st))),
                 collectingToolResult := False,
                 toolResultBuffer := []\<rparr>))"

text \<open>
  The rest of the chain: every remaining condition of the code has \<open>currentStep\<close> as a
  conjunct, so these rules are only reached with a current step, at index \<open>i\<close>.
  First the bodies of the last three rules.
\<close>

text \<open>Rule 7, while collecting: the line joins the buffer, and the step gets a copy.\<close>

definition collectRule :: "pstate \<Rightarrow> nat \<Rightarrow> jstring \<Rightarrow> pstate" where
  "collectRule st i line =
     updStep i (\<lambda>s. s\<lparr>toolResult := toolResultBuffer st @ [line]\<rparr>)
       (st\<lparr>toolResultBuffer := toolResultBuffer st @ [line]\<rparr>)"

text \<open>
  Rule 6, the tool's success line. The capture is a \<open>\w+\<close>, so it is ASCII and its
  \<open>toLowerCase\<close> is \<open>asciiLower\<close>.
\<close>

definition successRule :: "pstate \<Rightarrow> nat \<Rightarrow> jstring \<Rightarrow> pstate" where
  "successRule st i line =
     (case exec False successRe line of
        None \<Rightarrow> st
      | Some m \<Rightarrow>
          (let isSuccess = (asciiLower (grp m 1) = js ''true'');
               st1 = updStep i (\<lambda>s. s\<lparr>success := Some isSuccess\<rparr>) st;
               st2 = (if \<not> isSuccess
                      then st1\<lparr>traj := (traj st1)\<lparr>errors := errors (traj st1) + 1\<rparr>\<rparr>
                      else st1)
           in st2\<lparr>collectingToolResult := True, toolResultBuffer := []\<rparr>))"

text \<open>Rule 8, the fall-back for a line with the word ERROR in any case.\<close>

definition errorRule :: "pstate \<Rightarrow> nat \<Rightarrow> jstring \<Rightarrow> pstate" where
  "errorRule st i line =
     (if truthy (error (steps (traj st) ! i)) = None then
        (let st1 = updStep i (\<lambda>s. s\<lparr>error := Some line\<rparr>) st
         in st1\<lparr>traj := (traj st1)\<lparr>errors := errors (traj st1) + 1\<rparr>\<rparr>)
      else st)"

definition stepRules :: "(jstring \<Rightarrow> jstring) \<Rightarrow> pstate \<Rightarrow> nat \<Rightarrow> jstring \<Rightarrow> pstate" where
  "stepRules upper st i line =
     (if includesStr line (js ''HARNESS: Edit target:'') then
        (case afterLabel line (js ''HARNESS: Edit target:'') of
           None \<Rightarrow> st
         | Some v \<Rightarrow> setDetail i (\<lambda>d. d\<lparr>editTarget := Some v\<rparr>) st)
      else if includesStr line (js ''HARNESS: Edit instructions:'') then
        (case afterLabel line (js ''HARNESS: Edit instructions:'') of
           None \<Rightarrow> st
         | Some v \<Rightarrow> setDetail i (\<lambda>d. d\<lparr>editInstructions := Some v\<rparr>) st)
      else if includesStr line (js ''HARNESS: Line edits count:'') then
        (case afterLabel line (js ''HARNESS: Line edits count:'') of
           None \<Rightarrow> st
         | Some v \<Rightarrow> setDetail i (\<lambda>d. d\<lparr>lineEditsCount := Some v\<rparr>) st)
      else if test False editRe line then
        (case truthy (map_option trim (elemOpt (splitRe False editRe line) 1)) of
           None \<Rightarrow> st
         | Some v \<Rightarrow>
             setDetail i (\<lambda>d. d\<lparr>edits :=
               Some ((case edits d of None \<Rightarrow> [] | Some es \<Rightarrow> es) @ [v])\<rparr>) st)
      else if includesStr line (js ''HARNESS: Python syntax validation passed'') then
        setDetail i (\<lambda>d. d\<lparr>syntaxValidation := Some (js ''passed'')\<rparr>) st
      else if includesStr line (js ''HARNESS: Python syntax error'') then
        setDetail i (\<lambda>d. d\<lparr>syntaxValidation := Some (js ''failed''),
          syntaxError :=
            Some (case afterLabel line (js ''HARNESS: Python syntax error in'') of
                    None \<Rightarrow> js ''Syntax error detected''
                  | Some v \<Rightarrow> v)\<rparr>) st
      else if includesStr line (js ''HARNESS: SYNTAX ERROR at line'') then
        (case afterLabel line (js ''HARNESS: SYNTAX ERROR at line'') of
           None \<Rightarrow> st
         | Some v \<Rightarrow> setDetail i (\<lambda>d. d\<lparr>syntaxErrorDetail := Some v\<rparr>) st)
      else if includesStr line (js ''HARNESS: Changes applied:'') then
        (case afterLabel line (js ''HARNESS: Changes applied:'') of
           None \<Rightarrow> st
         | Some v \<Rightarrow> setDetail i (\<lambda>d. d\<lparr>changesApplied := Some v\<rparr>) st)
      else if includesStr line (js ''HARNESS: Changes that would have been applied:'') then
        (case afterLabel line (js ''HARNESS: Changes that would have been applied:'') of
           None \<Rightarrow> st
         | Some v \<Rightarrow> setDetail i (\<lambda>d. d\<lparr>changesNotApplied := Some v\<rparr>) st)
      else if includesStr line (js ''HARNESS: Attempted changes:'') then
        (case afterLabel line (js ''HARNESS: Attempted changes:'') of
           None \<Rightarrow> st
         | Some v \<Rightarrow> setDetail i (\<lambda>d. d\<lparr>attemptedChanges := Some v\<rparr>) st)
      else if includesStr line (js ''HARNESS: Writing'') \<and> includesStr line (js ''characters to'') then
        (case exec False writingRe line of
           None \<Rightarrow> st
         | Some m \<Rightarrow>
             setDetail i (\<lambda>d. d\<lparr>bytesWritten := Some (grp m 1), filePath := Some (grp m 2)\<rparr>) st)
      else if collectingToolResult st \<and> line \<noteq> [] then collectRule st i line
      else if includesStr line (js ''Tool 0 result success:'') then successRule st i line
      else if includesStr (upper line) (js ''ERROR'') then errorRule st i line
      else st)"

text \<open>One round of the loop, for the line \<open>lines[i]\<close>.\<close>

definition processLine :: "(jstring \<Rightarrow> jstring) \<Rightarrow> pstate \<Rightarrow> jstring \<Rightarrow> jserror + pstate" where
  "processLine upper st l =
     (let rawLine = trim l in
      if rawLine = [] then Inr st
      else
        let line = normalizeLine rawLine;
            others = (case currentStep st of None \<Rightarrow> Inr st | Some i \<Rightarrow> Inr (stepRules upper st i line))
        in
        if includesStr line (js ''Starting benchmark run'') then Inr (startRule st rawLine)
        else if includesStr line (js ''Dataset:'') \<and> includesStr line (js ''Agent:'')
                \<and> includesStr line (js ''Model:'') then
          (case datasetParts (traj st) (split line (js '','')) of
             Inl e \<Rightarrow> Inl e
           | Inr t \<Rightarrow> Inr (st\<lparr>traj := t\<rparr>))
        else if includesStr line (js ''HARNESS: Iteration'') \<and> includesStr line (js ''making LLM call'') then
          Inr (iterationRule st line)
        else if includesStr line (js ''HARNESS: Tool call'') then
          (case currentIteration st of
             None \<Rightarrow> others
           | Some it \<Rightarrow> Inr (toolCallRule st it rawLine line))
        else others)"

fun runLines :: "(jstring \<Rightarrow> jstring) \<Rightarrow> pstate \<Rightarrow> jstring list \<Rightarrow> jserror + pstate" where
  "runLines upper st [] = Inr st"
| "runLines upper st (l # ls) =
     (case processLine upper st l of Inl e \<Rightarrow> Inl e | Inr st' \<Rightarrow> runLines upper st' ls)"

section \<open>The test result extractor (parseTestResults)\<close>

definition passRe :: regex where
  "passRe = Seqs [Lit (js ''pass''), Plus True Sp, Grp 1 (Plus False Dot), Lit (js ''::''),
     Grp 2 (Plus False Dot), Chr 58, Plus True Sp, Lit (js ''PASSED'')]"

definition failRe :: regex where
  "failRe = Seqs [Lit (js ''fail''), Plus True Sp, Grp 1 (Plus False Dot), Lit (js ''::''),
     Grp 2 (Plus False Dot), Chr 58, Plus True Sp, Lit (js ''FAILED'')]"

definition passStartRe :: regex where
  "passStartRe = Seqs [Lit (js ''pass''), Plus True Sp, Grp 1 (Plus False Dot), Lit (js ''::''),
     Grp 2 (Plus False Dot), Chr 58, Star True Sp, Eos]"

definition failStartRe :: regex where
  "failStartRe = Seqs [Lit (js ''fail''), Plus True Sp, Grp 1 (Plus False Dot), Lit (js ''::''),
     Grp 2 (Plus False Dot), Chr 58, Star True Sp, Eos]"

definition passOnlyRe :: regex where
  "passOnlyRe = Seqs [Bos, Lit (js ''pass''), Star True Sp, Eos]"

definition failOnlyRe :: regex where
  "failOnlyRe = Seqs [Bos, Lit (js ''fail''), Star True Sp, Eos]"

definition mkResult :: "status \<Rightarrow> jstring \<Rightarrow> jstring \<Rightarrow> TestResult" where
  "mkResult st path testName =
     \<lparr>name = testName, status = st, fullName = path @ js ''::'' @ testName\<rparr>"

text \<open>
  The look-ahead \<open>while (j < lines.length && j < i + 4)\<close> of the two stand-alone
  branches, which differ only in the words: \<open>ok\<close> is PASSED and \<open>bad\<close> is FAILED in the
  pass branch, and the other way round in the fail branch. The lines from \<open>i + 1\<close> on
  are the list, \<open>k\<close> is \<open>j - (i + 1)\<close>, \<open>path\<close> is \<open>fullTestPath\<close>. Gives \<open>fullTestPath\<close>,
  \<open>foundEnd\<close> and \<open>k\<close> at the loop's exit.
\<close>

fun lookahead :: "jstring \<Rightarrow> jstring \<Rightarrow> jstring list \<Rightarrow> nat \<Rightarrow> jstring \<Rightarrow> jstring \<times> bool \<times> nat" where
  "lookahead ok bad [] k path = (path, False, k)"
| "lookahead ok bad (l # ls) k path =
     (let nextLine = trim l in
      if nextLine = js ''pass'' \<or> nextLine = js ''fail'' then (path, False, k)
      else if includesStr nextLine (js '': '' @ ok) then
        (path @ replaceStr nextLine (js '': '' @ ok) [], True, k)
      else if nextLine = ok then (path, True, k)
      else if includesStr nextLine (js ''::'') then lookahead ok bad ls (Suc k) (path @ nextLine)
      else if nextLine \<noteq> [] \<and> \<not> includesStr nextLine bad then
        lookahead ok bad ls (Suc k) (path @ nextLine)
      else lookahead ok bad ls (Suc k) path)"

text \<open>
  A stand-alone branch after its look-ahead: the result pushed, if any, and how many of
  the following lines the outer loop skips (\<open>i = j\<close>, then the loop's own \<open>i++\<close>).
\<close>

definition standalone :: "status \<Rightarrow> jstring \<Rightarrow> jstring \<Rightarrow> jstring list \<Rightarrow> (TestResult \<times> nat) option" where
  "standalone st ok bad rest =
     (case lookahead ok bad (take 3 rest) 0 [] of
        (path, foundEnd, k) \<Rightarrow>
          if foundEnd \<and> includesStr path (js ''::'') then
            (let parts = split path (js ''::'') in
             if 2 \<le> length parts
             then Some (mkResult st (hd parts) (join (tl parts) (js ''::'')), Suc k)
             else None)
          else None)"

text \<open>
  The two branches for a line that ends after \<open>::name:\<close>, when a next line exists
  (None: the branch's condition does not hold, the chain goes on). The result pushed,
  if any, and the number of following lines the loop skips.
\<close>

definition startBranch :: "status \<Rightarrow> regex \<Rightarrow> jstring \<Rightarrow> jstring \<Rightarrow> jstring list \<Rightarrow> (TestResult option \<times> nat) option" where
  "startBranch st re word line rest =
     (case exec False re line of
        None \<Rightarrow> None
      | Some m \<Rightarrow>
          (case rest of
             [] \<Rightarrow> None
           | nl # ls \<Rightarrow>
               Some (if trim nl = word then (Some (mkResult st (grp m 1) (grp m 2)), 1)
                     else (None, 0))))"

definition onlyBranch :: "status \<Rightarrow> regex \<Rightarrow> jstring \<Rightarrow> jstring \<Rightarrow> jstring \<Rightarrow> jstring list \<Rightarrow> (TestResult option \<times> nat) option" where
  "onlyBranch st re ok bad line rest =
     (if test False re line \<and> rest \<noteq> [] then
        Some (case standalone st ok bad rest of
                Some (r, skip) \<Rightarrow> (Some r, skip)
              | None \<Rightarrow> (None, 0))
      else None)"

text \<open>
  One round of the outer loop on the trimmed line \<open>lines[i]\<close>, with the lines after it:
  the if-else chain over the six matches.
\<close>

definition lineStep :: "jstring \<Rightarrow> jstring list \<Rightarrow> TestResult option \<times> nat" where
  "lineStep line rest =
     (case exec False passRe line of
        Some m \<Rightarrow> (Some (mkResult Pass (grp m 1) (grp m 2)), 0)
      | None \<Rightarrow>
     (case exec False failRe line of
        Some m \<Rightarrow> (Some (mkResult Fail (grp m 1) (grp m 2)), 0)
      | None \<Rightarrow>
     (case startBranch Pass passStartRe (js ''PASSED'') line rest of
        Some x \<Rightarrow> x
      | None \<Rightarrow>
     (case startBranch Fail failStartRe (js ''FAILED'') line rest of
        Some x \<Rightarrow> x
      | None \<Rightarrow>
     (case onlyBranch Pass passOnlyRe (js ''PASSED'') (js ''FAILED'') line rest of
        Some x \<Rightarrow> x
      | None \<Rightarrow>
     (case onlyBranch Fail failOnlyRe (js ''FAILED'') (js ''PASSED'') line rest of
        Some x \<Rightarrow> x
      | None \<Rightarrow> (None, 0)))))))"

text \<open>The outer loop; the list is the lines from index \<open>i\<close> on.\<close>

function parseTestLines :: "jstring list \<Rightarrow> TestResult list" where
  "parseTestLines [] = []"
| "parseTestLines (l # rest) =
     (case lineStep (trim l) rest of
        (None, skip) \<Rightarrow> parseTestLines (drop skip rest)
      | (Some r, skip) \<Rightarrow> r # parseTestLines (drop skip rest))"
  by pat_completeness auto
termination
  by (relation "measure length") auto

definition parseTestResults :: "jstring \<Rightarrow> TestResult list" where
  "parseTestResults contents = parseTestLines (split contents [10])"

section \<open>The lab training metrics extractor (parseLabTrainingMetrics)\<close>

definition noMetrics :: labMetrics where
  "noMetrics = \<lparr>labTestsPassed = None, labAgentSuccess = None, labCodeChangesMade = None,
     labNoSyntaxErrors = None, labConversationLength = None, labSuccessfulEdits = None,
     labFinalCodeFiles = None\<rparr>"

definition numberAfter :: "jstring \<Rightarrow> regex" where
  "numberAfter label = Seqs [Lit label, Star True Sp, Grp 1 (Plus True Digit)]"

text \<open>The inner loop over the lines after the marker, up to its \<open>break\<close>.\<close>

fun metricLines :: "labMetrics \<Rightarrow> jstring list \<Rightarrow> labMetrics" where
  "metricLines ms [] = ms"
| "metricLines ms (l # ls) =
     (let metricLine = trim l in
      if includesStr metricLine (js ''Tests Passed:'') then
        metricLines (ms\<lparr>labTestsPassed := Some (includesStr metricLine (js ''True''))\<rparr>) ls
      else if includesStr metricLine (js ''Agent Success:'') then
        metricLines (ms\<lparr>labAgentSuccess := Some (includesStr metricLine (js ''True''))\<rparr>) ls
      else if includesStr metricLine (js ''Code Changes Made:'') then
        metricLines (ms\<lparr>labCodeChangesMade := Some (includesStr metricLine (js ''True''))\<rparr>) ls
      else if includesStr metricLine (js ''No Syntax Errors:'') then
        metricLines (ms\<lparr>labNoSyntaxErrors := Some (includesStr metricLine (js ''True''))\<rparr>) ls
      else if includesStr metricLine (js ''Conversation Length:'') then
        (case exec False (numberAfter (js ''Conversation Length:'')) metricLine of
           Some m \<Rightarrow> metricLines (ms\<lparr>labConversationLength := Some (parseInt (grp m 1))\<rparr>) ls
         | None \<Rightarrow> metricLines ms ls)
      else if includesStr metricLine (js ''Successful Edits:'') then
        (case exec False (numberAfter (js ''Successful Edits:'')) metricLine of
           Some m \<Rightarrow> metricLines (ms\<lparr>labSuccessfulEdits := Some (parseInt (grp m 1))\<rparr>) ls
         | None \<Rightarrow> metricLines ms ls)
      else if includesStr metricLine (js ''Final Code Files:'') then
        (case exec False (numberAfter (js ''Final Code Files:'')) metricLine of
           Some m \<Rightarrow> metricLines (ms\<lparr>labFinalCodeFiles := Some (parseInt (grp m 1))\<rparr>) ls
         | None \<Rightarrow> metricLines ms ls)
      else if includesStr metricLine (js ''-- Details --'') then ms
      else metricLines ms ls)"

text \<open>
  The outer loop: at the first line with the marker, the inner loop runs over
  \<open>j = i + 1, ..., min(i + 20, lines.length) - 1\<close>, and the outer loop ends.
\<close>

fun labLines :: "jstring list \<Rightarrow> labMetrics" where
  "labLines [] = noMetrics"
| "labLines (l # rest) =
     (if includesStr (trim l) (js ''-- Lab Training Metrics --'')
      then metricLines noMetrics (take 19 rest)
      else labLines rest)"

text \<open>\<open>Object.keys(metrics).length > 0 ? metrics : undefined\<close>\<close>

definition parseLabTrainingMetrics :: "jstring \<Rightarrow> labMetrics option" where
  "parseLabTrainingMetrics contents =
     (let metrics = labLines (split contents [10])
      in if metrics = noMetrics then None else Some metrics)"

section \<open>Duration, outcome and diffs\<close>

definition durationRe :: regex where
  "durationRe = Seqs [Lit (js ''Total''), Plus True Sp, Lit (js ''duration:''), Star True Sp,
     Grp 1 (Plus True (Cls True [(10, 10)]))]"

definition extractDuration :: "jstring \<Rightarrow> jstring option" where
  "extractDuration contents =
     (case exec True durationRe contents of
        None \<Rightarrow> None
      | Some m \<Rightarrow> if grp m 1 \<noteq> [] then Some (trim (grp m 1)) else None)"

definition totalTestsRe :: regex where
  "totalTestsRe = Seqs [Lit (js ''Total''), Plus True Sp, Lit (js ''tests:''), Star True Sp,
     Grp 1 (Plus True Digit), Chr 47, Grp 2 (Plus True Digit), Star True Sp, Lit (js ''passed'')]"

definition passedLineRe :: regex where
  "passedLineRe = Seqs [Lit (js ''Passed''), Star True Sp, Grp 1 (Plus True Digit), Chr 47,
     Grp 2 (Plus True Digit), Star True Sp, Lit (js ''tests'')]"

text \<open>\<open>if (total > 0) return passed === total; return false;\<close> on the numbers of a match.\<close>

definition verdict :: "caps \<Rightarrow> bool" where
  "verdict c =
     (let lastPassed = parseInt (capOf c 1); lastTotal = parseInt (capOf c 2)
      in if 0 < lastTotal then lastPassed = lastTotal else False)"

definition determineFinalSuccess :: "jstring \<Rightarrow> jserror + bool" where
  "determineFinalSuccess contents =
     (case lastExec True (length contents) totalTestsRe None contents of
        Inl e \<Rightarrow> Inl e
      | Inr (Some c) \<Rightarrow> Inr (verdict c)
      | Inr None \<Rightarrow>
          (case lastExec True (length contents) passedLineRe None contents of
             Inl e \<Rightarrow> Inl e
           | Inr (Some c) \<Rightarrow> Inr (verdict c)
           | Inr None \<Rightarrow> Inr False))"

definition notQuote :: regex where
  "notQuote = Cls True [(39, 39)]"

definition diffRe :: "jstring \<Rightarrow> regex" where
  "diffRe key = Seqs [Chr 39, Lit key, Chr 39, Chr 58, Star True Sp, Chr 39,
     Grp 1 (Seq (Star True notQuote) (Star True (Seq (Lit [92, 39]) (Star True notQuote)))),
     Chr 39]"

text \<open>The three replacements, in the code's order: backslash-quote, backslash-n, backslash-t.\<close>

definition unescape :: "jstring \<Rightarrow> jstring" where
  "unescape t =
     replaceAll False (Lit [92, 116]) [9]
       (replaceAll False (Lit [92, 110]) [10]
         (replaceAll False (Lit [92, 39]) [39] t))"

definition fileRe :: regex where
  "fileRe = Seqs [Lit (js ''--- a/''), Grp 1 (Star False Dot), Chr 10, Lit (js ''+++ b/'')]"

text \<open>\<open>Array.from(new Set(xs))\<close>: the first occurrence of each element, in order.\<close>

fun dedupe :: "jstring list \<Rightarrow> jstring list \<Rightarrow> jstring list" where
  "dedupe seen [] = []"
| "dedupe seen (x # xs) = (if x \<in> set seen then dedupe seen xs else x # dedupe (x # seen) xs)"

text \<open>
  Nothing in the body of \<open>extractDiffs\<close> can throw on a string, so the \<open>catch\<close> that
  returns \<open>null\<close> is never entered; the result is always a bundle. A diff is tested for
  truthiness: an empty diff counts like an absent one.
\<close>

definition extractDiffs :: "jstring \<Rightarrow> DiffBundle option" where
  "extractDiffs contents =
     (let agent = map_option (\<lambda>m. unescape (grp m 1)) (exec False (diffRe (js ''agent_diff'')) contents);
          golden = map_option (\<lambda>m. unescape (grp m 1)) (exec False (diffRe (js ''golden_diff'')) contents);
          files = (case truthy agent of
                     None \<Rightarrow> []
                   | Some d \<Rightarrow> dedupe [] (map (\<lambda>c. capOf c 1) (matchAll False fileRe d)))
      in Some \<lparr>agentDiff = agent, goldenDiff = golden, filesChanged = files,
               diffStats = \<lparr>agentFilesChanged = length files,
                            goldenFilesChanged = (case truthy golden of None \<Rightarrow> 0 | Some d \<Rightarrow> 1),
                            agentLines = (case truthy agent of None \<Rightarrow> 0 | Some d \<Rightarrow> length (split d [10])),
                            goldenLines = (case truthy golden of None \<Rightarrow> 0 | Some d \<Rightarrow> length (split d [10]))\<rparr>\<rparr>)"

section \<open>The trajectory assembler (parseLogFile)\<close>

definition modelFromName :: "jstring \<Rightarrow> jstring \<Rightarrow> jstring" where
  "modelFromName fname dflt =
     (if includesStr fname (js ''gpt-5'') then js ''gpt-5''
      else if includesStr fname (js ''gpt-4'') then js ''gpt-4''
      else if includesStr fname (js ''claude'') then
        (if includesStr fname (js ''claude-3-5-sonnet'') then js ''claude-3-5-sonnet''
         else if includesStr fname (js ''claude-sonnet-4'') then js ''claude-sonnet-4-5-20250929''
         else js ''claude-3-5-sonnet'')
      else if includesStr fname (js ''gemini'') then
        (if includesStr fname (js ''gemini-2.5-flash-preview-09-2025'') then js ''gemini-2.5-flash-preview''
         else if includesStr fname (js ''gemini-2.5-pro'') then js ''gemini-2.5-pro''
         else js ''gemini-2.5-flash'')
      else dflt)"

text \<open>
  The task and model read off the file name. \<open>filenameParts[k].replace(...)\<close> is a method
  call on an element, so a missing element would throw.
\<close>

definition filenameMeta :: "jstring \<Rightarrow> Trajectory \<Rightarrow> jserror + Trajectory" where
  "filenameMeta fname t =
     (let filenameParts = split fname (js ''_'') in
      if 2 \<le> length filenameParts then
        (if length filenameParts = 2 then
           (case elemAt filenameParts 0 of
              Inl e \<Rightarrow> Inl e
            | Inr p0 \<Rightarrow>
                (case elemAt filenameParts 1 of
                   Inl e \<Rightarrow> Inl e
                 | Inr p1 \<Rightarrow> Inr (t\<lparr>modelName := p0, taskName := replaceStr p1 (js ''.log'') []\<rparr>)))
         else
           (case elemAt filenameParts (length filenameParts - 1) of
              Inl e \<Rightarrow> Inl e
            | Inr pl \<Rightarrow>
                Inr (t\<lparr>taskName := replaceStr pl (js ''.log'') [],
                       modelName := modelFromName fname (modelName t)\<rparr>)))
      else Inr t)"

definition newTrajectory :: "jstring \<Rightarrow> Trajectory" where
  "newTrajectory fname =
     \<lparr>filename = fname, taskName = js ''unknown'', modelName = js ''unknown'',
      totalIterations = 0, toolCalls = 0, errors = 0, testsPassed = 0, totalTests = 0,
      finalSuccess = False, duration = None, steps = [], finalDiffs = None,
      testResults = [], labTrainingMetrics = None\<rparr>"

definition newState :: "Trajectory \<Rightarrow> pstate" where
  "newState t = \<lparr>traj = t, currentIteration = None, currentStep = None,
     collectingToolResult = False, toolResultBuffer = []\<rparr>"

definition parseLogFile :: "(jstring \<Rightarrow> jstring) \<Rightarrow> jstring \<Rightarrow> jstring \<Rightarrow> jserror + Trajectory" where
  "parseLogFile upper fname contents =
     (case filenameMeta fname (newTrajectory fname) of
        Inl e \<Rightarrow> Inl e
      | Inr t0 \<Rightarrow>
     (case runLines upper (newState t0) (split contents [10]) of
        Inl e \<Rightarrow> Inl e
      | Inr st \<Rightarrow>
     (let results = parseTestResults contents in
      case determineFinalSuccess contents of
        Inl e \<Rightarrow> Inl e
      | Inr ok \<Rightarrow>
          Inr ((traj st)\<lparr>testResults := results,
                 testsPassed := length (filter (\<lambda>t. status t = Pass) results),
                 totalTests := length results,
                 labTrainingMetrics := parseLabTrainingMetrics contents,
                 finalSuccess := ok,
                 duration := extractDuration contents,
                 finalDiffs := extractDiffs contents\<rparr>))))"

section \<open>The file name resolvers and the client's outcome check (page.tsx)\<close>

definition knownModels :: "(jstring \<times> jstring) list" where
  "knownModels = [(js ''claude-sonnet-4-5-20250929'', js ''Claude Sonnet 4.5''),
     (js ''gemini_gemini-2.5-pro'', js ''Gemini 2.5 Pro''),
     (js ''gpt-5'', js ''GPT-5'')]"

text \<open>
  The loop over the known models: the first pattern of the list that occurs in the file
  name gives its display name and the file name after the occurrence.
\<close>

fun findKnown :: "(jstring \<times> jstring) list \<Rightarrow> jstring \<Rightarrow> (jstring \<times> jstring) option" where
  "findKnown [] fname = None"
| "findKnown ((pattern, display) # ms) fname =
     (case indexOf fname pattern of
        Some idx \<Rightarrow> Some (display, drop (idx + length pattern) fname)
      | None \<Rightarrow> findKnown ms fname)"

definition sepClass :: regex where
  "sepClass = Cls False [(45, 45), (95, 95)]"

definition logTxt :: regex where
  "logTxt = Seqs [Chr 46, Grp 3 (Alt (Lit (js ''log'')) (Lit (js ''txt'')))]"

text \<open>The three fall-back patterns, each with its \<open>i\<close> flag.\<close>

definition modelPatterns :: "(bool \<times> regex) list" where
  "modelPatterns =
     [(True, Seqs [Bos, Grp 1 (Plus False Dot), sepClass, Grp 2 (Plus False Dot), logTxt, Eos]),
      (True, Seqs [Bos, Grp 1 (Plus False Dot), sepClass, Grp 2 (Plus True Dot), Eos]),
      (False, Seqs [Bos, Grp 1 (Plus True (Cls True [(45, 45), (95, 95)])), sepClass,
                    Grp 2 (Plus True Dot), Eos])]"

definition identRe :: regex where
  "identRe = Seqs [Bos, Cls False [(97, 122), (65, 90)],
     Opt (Grp 1 (Seq (Star True (Cls False [(97, 122), (65, 90), (48, 57), (46, 46), (95, 95), (45, 45)]))
                     (Cls False [(97, 122), (65, 90), (48, 57)]))),
     Eos]"

text \<open>
  The title-cased model name. It is only computed for a name that passed \<open>identRe\<close>, so
  the name is ASCII and the two conversions are the ASCII ones.
\<close>

definition titleModel :: "jstring \<Rightarrow> jstring" where
  "titleModel potentialModel =
     join (map (\<lambda>w. asciiUpper (take 1 w) @ asciiLower (drop 1 w))
            (split (replaceAll False (Chr 45) (js '' '') (replaceAll False (Chr 95) (js '' '') potentialModel))
               (js '' '')))
       (js '' '')"

text \<open>
  The display resolver's loop over the fall-back patterns: a pattern is taken only when
  its first group looks like a model name.
\<close>

fun displayFallback :: "(bool \<times> regex) list \<Rightarrow> jstring \<Rightarrow> (jstring \<times> jstring) option" where
  "displayFallback [] fname = None"
| "displayFallback ((ci, pattern) # ps) fname =
     (case exec ci pattern fname of
        None \<Rightarrow> displayFallback ps fname
      | Some m \<Rightarrow>
          if test False identRe (grp m 1)
          then Some (titleModel (grp m 1), if grp m 2 = [] then fname else grp m 2)
          else displayFallback ps fname)"

definition leadingSeps :: regex where
  "leadingSeps = Seqs [Bos, Plus True (Cls False [(45, 45), (95, 95), (46, 46)])]"

definition extRe :: regex where
  "extRe = Seqs [Chr 46, Grp 1 (Alt (Lit (js ''log'')) (Lit (js ''txt''))), Eos]"

definition sepRun :: regex where
  "sepRun = Plus True (Cls False [(95, 95), (45, 45)])"

record parsedName =
  model :: jstring
  task :: jstring

definition parseTrajectoryFilename :: "(jstring \<Rightarrow> jstring) \<Rightarrow> jstring \<Rightarrow> parsedName" where
  "parseTrajectoryFilename upper fname =
     (let (model0, taskRaw0) = (case findKnown knownModels fname of
                                  Some (display, rest) \<Rightarrow> (display, rest)
                                | None \<Rightarrow> (js ''Unknown'', fname));
          (model1, taskRaw1) = (if model0 = js ''Unknown'' then
                                  (case displayFallback modelPatterns fname of
                                     Some (mo, ta) \<Rightarrow> (mo, ta)
                                   | None \<Rightarrow> (model0, taskRaw0))
                                else (model0, taskRaw0));
          taskRaw2 = replaceRe True extRe [] (replaceRe False leadingSeps [] taskRaw1);
          taskRaw3 = (if taskRaw2 = [] then replaceRe True extRe [] fname else taskRaw2)
      in \<lparr>model = model1,
          task = join (map (\<lambda>w. upper (take 1 w) @ drop 1 w)
                        (filter (\<lambda>w. w \<noteq> [])
                           (split (trim (replaceAll False sepRun (js '' '') taskRaw3)) (js '' ''))))
                   (js '' '')\<rparr>)"

text \<open>The task-id resolver's loop: the first pattern that matches with a non-empty second group.\<close>

fun taskFallback :: "(bool \<times> regex) list \<Rightarrow> jstring \<Rightarrow> jstring option" where
  "taskFallback [] fname = None"
| "taskFallback ((ci, pattern) # ps) fname =
     (case exec ci pattern fname of
        None \<Rightarrow> taskFallback ps fname
      | Some m \<Rightarrow> if grp m 2 \<noteq> [] then Some (grp m 2) else taskFallback ps fname)"

definition getTaskIdFromFilename :: "jstring \<Rightarrow> jstring" where
  "getTaskIdFromFilename fname =
     (let taskRaw0 = (case findKnown (map (\<lambda>p. (p, [])) (map fst knownModels)) fname of
                        Some (d, rest) \<Rightarrow> rest
                      | None \<Rightarrow> fname);
          taskRaw1 = (if taskRaw0 = fname then
                        (case taskFallback modelPatterns fname of Some ta \<Rightarrow> ta | None \<Rightarrow> taskRaw0)
                      else taskRaw0);
          taskRaw2 = replaceRe True extRe [] (replaceRe False leadingSeps [] taskRaw1)
      in if taskRaw2 = [] then replaceRe True extRe [] fname else taskRaw2)"

definition formatTaskIdToTitle :: "(jstring \<Rightarrow> jstring) \<Rightarrow> jstring \<Rightarrow> jstring" where
  "formatTaskIdToTitle upper taskId =
     join (map (\<lambda>w. upper (take 1 w) @ drop 1 w)
            (filter (\<lambda>w. w \<noteq> [])
               (split (trim (replaceAll False sepRun (js '' '') taskId)) (js '' ''))))
       (js '' '')"

text \<open>The client's copy of the outcome check: \<open>null\<close> (None) where the server says false.\<close>

definition parsePassFailFromLogText :: "jstring \<Rightarrow> jserror + bool option" where
  "parsePassFailFromLogText text =
     (if text = [] then Inr None
      else
        (case lastExec True (length text) totalTestsRe None text of
           Inl e \<Rightarrow> Inl e
         | Inr (Some c) \<Rightarrow> Inr (Some (verdict c))
         | Inr None \<Rightarrow>
             (case lastExec True (length text) passedLineRe None text of
                Inl e \<Rightarrow> Inl e
              | Inr (Some c) \<Rightarrow> Inr (Some (verdict c))
              | Inr None \<Rightarrow> Inr None)))"

section \<open>Notions used in the statements and proofs\<close>

text \<open>
  A pattern every match of which takes at least one code unit, by its shape: a sound,
  syntactic test.
\<close>

fun consuming :: "regex \<Rightarrow> bool" where
  "consuming (Chr p) = True"
| "consuming (Cls neg rs) = True"
| "consuming (Seq a b) = (consuming a \<or> consuming b)"
| "consuming (Alt a b) = (consuming a \<and> consuming b)"
| "consuming (Star g r) = False"
| "consuming (Grp i r) = consuming r"
| "consuming Bos = False"
| "consuming Eos = False"
| "consuming Empty = False"

fun fconsuming :: "frame \<Rightarrow> bool" where
  "fconsuming (R r) = consuming r"
| "fconsuming (Loop g r len) = False"
| "fconsuming (Close i s0) = False"


declare splitAcc.simps [simp del] replaceAllFrom.simps [simp del] matchAllFrom.simps [simp del]
  splitReFrom.simps [simp del] lastExec.simps [simp del]

text \<open>
  Every occurrence of a pattern in a text is what \<open>matchAll\<close> lists, from left to
  right. The occurrence that decides the outcome: the last one of the "Total tests"
  pattern, and if there is none, the last one of the "Passed" pattern.
\<close>

definition lastOccurrence :: "regex \<Rightarrow> jstring \<Rightarrow> caps option" where
  "lastOccurrence r s = (case matchAll True r s of [] \<Rightarrow> None | c # cs \<Rightarrow> Some (last (c # cs)))"

definition decidingOccurrence :: "jstring \<Rightarrow> caps option" where
  "decidingOccurrence s =
     (case lastOccurrence totalTestsRe s of
        Some c \<Rightarrow> Some c
      | None \<Rightarrow> lastOccurrence passedLineRe s)"

text \<open>The two sample texts of the outcome property.\<close>

definition twoTotals :: jstring where
  "twoTotals = js ''Total tests: 3/5 passed'' @ [10] @ js ''Total tests: 5/5 passed''"


text \<open>
  The shape of the fragment pattern: a pattern without groups (\<open>plain\<close>) before its
  one group, the quoted value, which is followed by the closing quote.
\<close>

fun plain :: "regex \<Rightarrow> bool" where
  "plain (Chr p) = True"
| "plain (Cls neg rs) = True"
| "plain (Seq a b) = (plain a \<and> plain b)"
| "plain (Alt a b) = (plain a \<and> plain b)"
| "plain (Star g r) = plain r"
| "plain (Grp i r) = False"
| "plain Bos = True"
| "plain Eos = True"
| "plain Empty = True"






definition sampleDiffQuote :: jstring where
  "sampleDiffQuote = js ''{'' @ [39] @ js ''agent_diff'' @ [39] @ js '': '' @ [39] @ js ''abc'' @ [92, 39] @ js ''def'' @ [39] @ js ''}''"

text \<open>
  What the accounting of steps looks at in a step: its type, content, iteration and tool
  name. \<open>coreOk\<close> is what holds of each step of a run: the iteration is at most the running
  maximum, and the step is a start step or an iteration step whose content is
  "Executing " followed by its tool name. \<open>stepInv\<close> is the invariant of the loop over the
  lines, \<open>sameCore\<close> relates two states that agree on all of that.
\<close>

definition core :: "TrajectoryStep \<Rightarrow> jstring \<times> jstring \<times> enat \<times> jstring option" where
  "core s = (type s, content s, iteration s, toolCall s)"

definition coreOk :: "enat \<Rightarrow> jstring \<times> jstring \<times> enat \<times> jstring option \<Rightarrow> bool" where
  "coreOk tot c =
     (case c of (ty, co, it, tc) \<Rightarrow>
        it \<le> tot \<and>
        (ty = js ''start'' \<or> ty = js ''iteration'' \<and> (case tc of None \<Rightarrow> False | Some n \<Rightarrow> co = js ''Executing '' @ n)))"

definition stepInv :: "pstate \<Rightarrow> bool" where
  "stepInv st =
     (list_all (coreOk (totalIterations (traj st))) (map core (steps (traj st)))
      \<and> (case currentIteration st of None \<Rightarrow> True | Some it \<Rightarrow> it \<le> totalIterations (traj st))
      \<and> toolCalls (traj st) = length (filter (\<lambda>c. fst c = js ''iteration'') (map core (steps (traj st)))))"

definition sameCore :: "pstate \<Rightarrow> pstate \<Rightarrow> bool" where
  "sameCore st' st =
     (map core (steps (traj st')) = map core (steps (traj st))
      \<and> totalIterations (traj st') = totalIterations (traj st)
      \<and> toolCalls (traj st') = toolCalls (traj st)
      \<and> currentIteration st' = currentIteration st
      \<and> currentStep st' = currentStep st)"

text \<open>
  A content that matches none of the expected patterns: no line holds the start phrase
  or the tool call phrase (the two phrases that add a step), no line has one of the six
  shapes of the test result extractor, and neither outcome phrase occurs.
\<close>

definition plainLine :: "jstring \<Rightarrow> bool" where
  "plainLine l =
     (let line = normalizeLine (trim l)
      in \<not> includesStr line (js ''Starting benchmark run'') \<and> \<not> includesStr line (js ''HARNESS: Tool call''))"

definition noTestLine :: "jstring \<Rightarrow> bool" where
  "noTestLine l =
     (let line = trim l
      in exec False passRe line = None \<and> exec False failRe line = None
         \<and> exec False passStartRe line = None \<and> exec False failStartRe line = None
         \<and> \<not> test False passOnlyRe line \<and> \<not> test False failOnlyRe line)"

definition unmatched :: "jstring \<Rightarrow> bool" where
  "unmatched contents =
     (list_all (\<lambda>l. plainLine l \<and> noTestLine l) (split contents [10])
      \<and> matchAll True totalTestsRe contents = [] \<and> matchAll True passedLineRe contents = [])"

text \<open>A small log with a start line, an iteration, a tool call that fails, and a test.\<close>

definition sampleName :: jstring where
  "sampleName = js ''gpt-5_task.log''"

definition sampleLog :: jstring where
  "sampleLog = join [js ''2025-01-01 Starting benchmark run'',
                     js ''HARNESS: Iteration 1 making LLM call'',
                     js ''12:00:01 HARNESS: Tool call 1: edit_file'',
                     js ''Tool 0 result success: False'',
                     js ''pass tasks/a.py::test_x: PASSED'',
                     js ''Total tests: 1/1 passed''] [10]"

text \<open>
  One of the rules before the last three applies to a line, in a state with a current
  step: the conditions of rules 1 to 5 of the if-else chain, as the code has them.
\<close>

definition earlierRule :: "pstate \<Rightarrow> jstring \<Rightarrow> bool" where
  "earlierRule st line =
     (includesStr line (js ''Starting benchmark run'')
      \<or> (includesStr line (js ''Dataset:'') \<and> includesStr line (js ''Agent:'') \<and> includesStr line (js ''Model:''))
      \<or> (includesStr line (js ''HARNESS: Iteration'') \<and> includesStr line (js ''making LLM call''))
      \<or> (includesStr line (js ''HARNESS: Tool call'') \<and> currentIteration st \<noteq> None)
      \<or> includesStr line (js ''HARNESS: Edit target:'')
      \<or> includesStr line (js ''HARNESS: Edit instructions:'')
      \<or> includesStr line (js ''HARNESS: Line edits count:'')
      \<or> test False editRe line
      \<or> includesStr line (js ''HARNESS: Python syntax validation passed'')
      \<or> includesStr line (js ''HARNESS: Python syntax error'')
      \<or> includesStr line (js ''HARNESS: SYNTAX ERROR at line'')
      \<or> includesStr line (js ''HARNESS: Changes applied:'')
      \<or> includesStr line (js ''HARNESS: Changes that would have been applied:'')
      \<or> includesStr line (js ''HARNESS: Attempted changes:'')
      \<or> (includesStr line (js ''HARNESS: Writing'') \<and> includesStr line (js ''characters to'')))"

text \<open>The error counter after a line: unchanged, or one more.\<close>

definition atMostOne :: "pstate \<Rightarrow> pstate \<Rightarrow> bool" where
  "atMostOne st' st = (errors (traj st) \<le> errors (traj st') \<and> errors (traj st') \<le> errors (traj st) + 1)"


text \<open>
  The state of the loop after an iteration line and a tool call line, and a log in which
  two failure lines follow them.
\<close>

definition afterToolCall :: pstate where
  "afterToolCall =
     (case runLines asciiUpper (newState (newTrajectory []))
             [js ''HARNESS: Iteration 1 making LLM call'', js ''HARNESS: Tool call 1: edit_file''] of
        Inr st \<Rightarrow> st
      | Inl e \<Rightarrow> newState (newTrajectory []))"

definition twoFailures :: jstring where
  "twoFailures = join [js ''HARNESS: Iteration 1 making LLM call'',
                       js ''HARNESS: Tool call 1: edit_file'',
                       js ''Tool 0 result success: False'',
                       js ''Tool 0 result success: False''] [10]"

section \<open>General lemmas\<close>

lemma dropWhile_self: "xs = [] \<or> \<not> P (hd xs) \<Longrightarrow> dropWhile P xs = xs"
  by (cases xs) auto

lemma trim_trim: "trim (trim s) = trim s"
proof -
  define a where "a = dropWhile isSpace s"
  define b where "b = dropWhile isSpace (rev a)"
  have t: "trim s = rev b" by (simp add: trim_def a_def b_def)
  have hb: "b = [] \<or> \<not> isSpace (hd b)"
    unfolding b_def using hd_dropWhile[of isSpace "rev a"] by blast
  have ha: "a = [] \<or> \<not> isSpace (hd a)"
    unfolding a_def using hd_dropWhile[of isSpace s] by blast
  have "rev a = takeWhile isSpace (rev a) @ b" by (simp add: b_def)
  then have "a = rev b @ rev (takeWhile isSpace (rev a))"
    by (metis rev_append rev_rev_ident)
  then have "b \<noteq> [] \<Longrightarrow> hd (rev b) = hd a \<and> a \<noteq> []"
    by (metis Nil_is_append_conv hd_append2 rev_is_Nil_conv)
  with ha have "rev b = [] \<or> \<not> isSpace (hd (rev b))" by auto
  then have d1: "dropWhile isSpace (rev b) = rev b" by (rule dropWhile_self)
  have d2: "dropWhile isSpace b = b" using hb by (rule dropWhile_self)
  have "trim (rev b) = rev b" unfolding trim_def by (simp add: d1 d2)
  then show ?thesis by (simp only: t)
qed

lemma length_trim: "length (trim s) \<le> length s"
  unfolding trim_def
  by (metis length_dropWhile_le length_rev le_trans)

lemma backtrack_suffix:
  "backtrack ci n k s c = Some (c', rest) \<Longrightarrow> suffix rest s"
proof (induction ci n k s c arbitrary: c' rest rule: backtrack.induct)
  case (2 ci n p k s c)
  then show ?case by (auto split: list.splits if_splits intro: suffix_ConsI)
next
  case (3 ci n neg rs k s c)
  then show ?case by (auto split: list.splits if_splits intro: suffix_ConsI)
next
  case (5 ci n a b k s c)
  then show ?case by (auto split: option.splits)
next
  case (6 ci n g r k s c)
  then show ?case by (auto split: option.splits if_splits)
next
  case (7 ci n g r len k s c)
  then show ?case by (auto split: if_splits)
next
  case (10 ci n k s c)
  then show ?case by (auto split: if_splits)
next
  case (11 ci n k s c)
  then show ?case by (auto split: if_splits)
qed auto

lemma backtrack_shorter:
  "backtrack ci n k s c = Some (c', rest) \<Longrightarrow> list_ex fconsuming k \<Longrightarrow> length rest < length s"
proof (induction ci n k s c arbitrary: c' rest rule: backtrack.induct)
  case (2 ci n p k s c)
  then show ?case by (auto split: list.splits if_splits dest!: backtrack_suffix suffix_length_le)
next
  case (3 ci n neg rs k s c)
  then show ?case by (auto split: list.splits if_splits dest!: backtrack_suffix suffix_length_le)
next
  case (5 ci n a b k s c)
  then show ?case by (auto split: option.splits)
next
  case (6 ci n g r k s c)
  then show ?case by (auto split: option.splits if_splits)
next
  case (7 ci n g r len k s c)
  then show ?case by (auto split: if_splits)
next
  case (10 ci n k s c)
  then show ?case by (auto split: if_splits)
next
  case (11 ci n k s c)
  then show ?case by (auto split: if_splits)
qed auto

lemma consuming_Lit [simp]: "consuming (Lit w) = (w \<noteq> [])"
  by (induction w) auto

lemma consuming_Plus [simp]: "consuming (Plus g r) = consuming r"
  by (simp add: Plus_def)

lemma search_suffix:
  "search ci n r s = Some (s0, rest, c) \<Longrightarrow>
     suffix s0 s \<and> suffix rest s0 \<and> backtrack ci n [R r] s0 [] = Some (c, rest)"
  by (induction s) (auto split: option.splits dest: backtrack_suffix intro: suffix_ConsI)

lemma exec_parts:
  assumes "exec ci r s = Some m"
  shows "s = before m @ matched m @ after m"
    and "\<exists>s0 c. backtrack ci (length s) [R r] s0 [] = Some (c, after m) \<and> s0 = matched m @ after m"
proof -
  from assms obtain s0 rest c where se: "search ci (length s) r s = Some (s0, rest, c)"
    and m: "m = \<lparr>before = take (length s - length s0) s, matched = take (length s0 - length rest) s0, after = rest, groups = c\<rparr>"
    by (auto simp: exec_def split: option.splits)
  from search_suffix[OF se] obtain p q where pq: "s = p @ s0" "s0 = q @ rest"
    and b: "backtrack ci (length s) [R r] s0 [] = Some (c, rest)"
    by (auto simp: suffix_def)
  from pq show "s = before m @ matched m @ after m" by (simp add: m)
  from pq b show "\<exists>s0 c. backtrack ci (length s) [R r] s0 [] = Some (c, after m) \<and> s0 = matched m @ after m"
    by (auto simp: m)
qed

lemmas ev = js_def space_units_def in_ranges_def isSpace_def trim_def chr_eq_def cls_mem_def swapcase_def
  Plus_def Sp_def Digit_def Word_def Dot_def exec_def test_def grp_def capOf_def replaceRe_def
  Opt_def

section \<open>The line normaliser\<close>

lemma emojiRe_nonempty:
  assumes "exec False emojiRe s = Some m"
  shows "matched m \<noteq> []"
proof -
  from exec_parts(2)[OF assms] obtain s0 c where
    b: "backtrack False (length s) [R emojiRe] s0 [] = Some (c, after m)" and s0: "s0 = matched m @ after m"
    by blast
  have "consuming emojiRe" by (simp add: emojiRe_def)
  with b have "length (after m) < length s0"
    by (auto dest: backtrack_shorter)
  with s0 show ?thesis by auto
qed

text \<open>
  Claim C6, as amended. Applying the line normaliser twice equals applying it once
  exactly when the normalised line does not itself start with one code unit of the
  glyph class followed by at least one white-space code unit.
\<close>

theorem normalizeLine_idempotent_iff:
  "normalizeLine (normalizeLine s) = normalizeLine s \<longleftrightarrow> \<not> test False emojiRe (normalizeLine s)"
proof
  assume eq: "normalizeLine (normalizeLine s) = normalizeLine s"
  show "\<not> test False emojiRe (normalizeLine s)"
  proof
    assume "test False emojiRe (normalizeLine s)"
    then obtain m where m: "exec False emojiRe (normalizeLine s) = Some m"
      by (auto simp: test_def)
    have "length (normalizeLine (normalizeLine s)) \<le> length (before m @ after m)"
      using m length_trim[of "before m @ after m"]
      by (simp add: normalizeLine_def[of "normalizeLine s"] replaceRe_def)
    also have "\<dots> < length (before m @ matched m @ after m)"
      using emojiRe_nonempty[OF m] by simp
    also have "\<dots> = length (normalizeLine s)"
      using exec_parts(1)[OF m] by simp
    finally show False using eq by simp
  qed
next
  assume "\<not> test False emojiRe (normalizeLine s)"
  then have "replaceRe False emojiRe [] (normalizeLine s) = normalizeLine s"
    by (auto simp: test_def replaceRe_def)
  then have "normalizeLine (normalizeLine s) = trim (normalizeLine s)"
    by (simp add: normalizeLine_def[of "normalizeLine s"])
  also have "\<dots> = normalizeLine s"
    by (simp add: normalizeLine_def[of s] trim_trim)
  finally show "normalizeLine (normalizeLine s) = normalizeLine s" .
qed

theorem normalizeLine_idempotent_witness:
  "normalizeLine (normalizeLine [9201, 32, 120]) = normalizeLine [9201, 32, 120]
   \<and> normalizeLine [9201, 32, 120] = [120]"
proof -
  have n: "normalizeLine [9201, 32, 120] = [120]"
    by (simp add: ev emoji_units_def emojiRe_def normalizeLine_def)
  have "\<not> test False emojiRe (normalizeLine [9201, 32, 120])"
    by (simp add: n ev emoji_units_def emojiRe_def)
  then have "normalizeLine (normalizeLine [9201, 32, 120]) = normalizeLine [9201, 32, 120]"
    by (rule iffD2[OF normalizeLine_idempotent_iff])
  then show ?thesis using n by blast
qed

text \<open>
  The claim as stated fails on a line with two stopwatch glyphs (U+23F1), each followed
  by a space, before the letter x.
\<close>

theorem normalizeLine_not_idempotent:
  "normalizeLine (normalizeLine [9201, 32, 9201, 32, 120]) \<noteq> normalizeLine [9201, 32, 9201, 32, 120]"
  by (simp add: ev emoji_units_def emojiRe_def normalizeLine_def)


section \<open>The diff extractor\<close>











lemma plain_Lit [simp]: "plain (Lit w)"
  by (induction w) auto










text \<open>
  The pattern's provision for escaped quotes never applies: the value is matched by
  "no quote, any number of times", then any number of "backslash, quote, no quotes"; the
  first part takes the backslash too, so the second part never finds one. An escaped
  quote ends the value, with the backslash as its last code unit.
\<close>

lemma diffRe_escaped_quote:
  "map_option (\<lambda>m. grp m 1) (exec False (diffRe (js ''agent_diff'')) sampleDiffQuote) = Some (js ''abc'' @ [92])"
  by (simp add: sampleDiffQuote_def diffRe_def notQuote_def ev)






section \<open>The outcome extractor\<close>

lemma lastExec_matchAllFrom:
  "consuming r \<Longrightarrow> lastExec ci n r prev s =
           Inr (case matchAllFrom ci n r s of [] \<Rightarrow> prev | c # cs \<Rightarrow> Some (last (c # cs)))"
proof (induction ci n r s arbitrary: prev rule: matchAllFrom.induct)
  case step: (1 ci n r s)
  note cons = \<open>consuming r\<close>
  show ?case
  proof (cases "backtrack ci n [R r] s []")
    case None
    show ?thesis
    proof (cases s)
      case Nil
      with None show ?thesis
        by (subst lastExec.simps, subst matchAllFrom.simps) simp
    next
      case (Cons x xs)
      have eq: "lastExec ci n r prev (x # xs) = lastExec ci n r prev xs"
      proof (cases "search ci n r xs")
        case None
        then show ?thesis using \<open>backtrack ci n [R r] s [] = None\<close> Cons
          by (subst lastExec.simps, subst (2) lastExec.simps) simp
      next
        case (Some t)
        obtain s0 rest c where t: "t = (s0, rest, c)" by (cases t)
        from search_suffix[of ci n r xs s0 rest c] Some t
        have s0: "suffix s0 xs" and b: "backtrack ci n [R r] s0 [] = Some (c, rest)" by auto
        from backtrack_shorter[OF b] cons have "length rest < length s0" by simp
        moreover from s0 have "length s0 \<le> length xs" by (rule suffix_length_le)
        ultimately have "length rest < length xs" by simp
        then show ?thesis using \<open>backtrack ci n [R r] s [] = None\<close> Cons Some t
          by (subst lastExec.simps, subst (2) lastExec.simps) simp
      qed
      have "matchAllFrom ci n r s = matchAllFrom ci n r xs"
        using None Cons by (subst matchAllFrom.simps) simp
      have ih: "lastExec ci n r prev xs =
           Inr (case matchAllFrom ci n r xs of [] \<Rightarrow> prev | c' # cs \<Rightarrow> Some (last (c' # cs)))"
        using None Cons cons by (intro step.IH(1)) auto
      show ?thesis using eq Cons ih \<open>matchAllFrom ci n r s = matchAllFrom ci n r xs\<close> by simp
    qed
  next
    case (Some t)
    obtain c rest where t: "t = (c, rest)" by (cases t)
    from backtrack_shorter[of ci n "[R r]" s "[]" c rest] Some t cons
    have shorter: "length rest < length s" by simp
    have se: "search ci n r s = Some (s, rest, c)"
      using Some t by (cases s) auto
    have l: "lastExec ci n r prev s = lastExec ci n r (Some c) rest"
      using se shorter by (subst lastExec.simps) simp
    have mm: "matchAllFrom ci n r s = c # matchAllFrom ci n r rest"
      using Some t shorter by (subst matchAllFrom.simps) simp
    have ih: "lastExec ci n r (Some c) rest =
           Inr (case matchAllFrom ci n r rest of [] \<Rightarrow> Some c | c' # cs \<Rightarrow> Some (last (c' # cs)))"
      using Some t shorter cons by (intro step.IH(2)) auto
    show ?thesis
      using l mm ih by (auto split: list.splits)
  qed
qed

lemma bitlen_lower: "0 < n \<Longrightarrow> 2 ^ (bitlen n - 1) \<le> n"
proof (induction n rule: bitlen.induct)
  case (1 n)
  show ?case
  proof (cases "n div 2 = 0")
    case True
    with 1(2) have "n = 1" by (simp add: div_eq_0_iff)
    then show ?thesis by (simp add: bitlen.simps)
  next
    case False
    with 1 have ih: "2 ^ (bitlen (n div 2) - 1) \<le> n div 2" by simp
    from False have "0 < bitlen (n div 2)" by (subst bitlen.simps) simp
    then have "bitlen n - 1 = Suc (bitlen (n div 2) - 1)"
      using 1(2) by (subst bitlen.simps) simp
    then have "(2::nat) ^ (bitlen n - 1) = 2 * 2 ^ (bitlen (n div 2) - 1)" by simp
    also have "\<dots> \<le> 2 * (n div 2)" using ih by simp
    also have "\<dots> \<le> n" by simp
    finally show ?thesis .
  qed
qed

lemma toDouble_exact: "n < 2 ^ 53 \<Longrightarrow> toDouble n = enat n"
  by (simp add: toDouble_def exactBelow_def)

lemma roundTo_pos: "2 ^ e \<le> n \<Longrightarrow> 0 < roundTo n e"
proof -
  assume "2 ^ e \<le> n"
  then have "0 < n div 2 ^ e" by (simp add: div_greater_zero_iff)
  then show ?thesis by (simp add: roundTo_def Let_def)
qed

lemma toDouble_pos: "0 < toDouble n \<longleftrightarrow> 0 < n"
proof (cases "n < exactBelow")
  case True
  then show ?thesis by (simp add: toDouble_def enat_0_iff)
next
  case False
  then have pos: "0 < n" by (cases n) (auto simp: exactBelow_def)
  have "(2::nat) ^ (bitlen n - 53) \<le> 2 ^ (bitlen n - 1)" by (rule power_increasing) auto
  also have "\<dots> \<le> n" using pos by (rule bitlen_lower)
  finally have "0 < roundTo n (bitlen n - 53)" by (rule roundTo_pos)
  then have "0 < toDouble n"
    using False by (simp add: toDouble_def Let_def enat_0_iff)
  with pos show ?thesis by simp
qed

lemma toDouble_zero: "toDouble n = 0 \<longleftrightarrow> n = 0"
  using toDouble_pos[of n] by auto

lemma verdict_eq:
  "verdict c = (parseInt (capOf c 1) = parseInt (capOf c 2) \<and> 0 < digitsVal (capOf c 2))"
  by (auto simp: verdict_def Let_def parseInt_def toDouble_zero)

lemma consuming_totalTestsRe: "consuming totalTestsRe"
  by (simp add: totalTestsRe_def js_def)

lemma consuming_passedLineRe: "consuming passedLineRe"
  by (simp add: passedLineRe_def js_def)

lemma determineFinalSuccess_eq:
  "determineFinalSuccess contents =
     Inr (case decidingOccurrence contents of None \<Rightarrow> False | Some c \<Rightarrow> verdict c)"
  by (simp add: determineFinalSuccess_def decidingOccurrence_def lastOccurrence_def matchAll_def
      lastExec_matchAllFrom[OF consuming_totalTestsRe] lastExec_matchAllFrom[OF consuming_passedLineRe]
      split: list.splits option.splits)

lemma parsePassFail_eq:
  "parsePassFailFromLogText contents =
     Inr (if contents = [] then None else map_option verdict (decidingOccurrence contents))"
  by (simp add: parsePassFailFromLogText_def decidingOccurrence_def lastOccurrence_def matchAll_def
      lastExec_matchAllFrom[OF consuming_totalTestsRe] lastExec_matchAllFrom[OF consuming_passedLineRe]
      split: list.splits option.splits)

text \<open>
  Claim C1, as amended. The outcome is decided by the last occurrence of
  "Total tests: X/Y passed" (case-insensitive, white space tolerated), and where there
  is none by the last occurrence of "Passed X/Y tests"; with neither, the result is
  false. The loops over the occurrences end, and nothing is thrown. On the deciding
  occurrence the result is true iff \<open>parseInt\<close> gives the same number for X and Y and
  Y is not zero. \<open>parseInt\<close> returns doubles: for X and Y below \<open>2 ^ 53\<close> that is X = Y
  and Y > 0, as the claim says. The client's copy of the check answers true on exactly
  the same texts.
\<close>

theorem determineFinalSuccess_last_wins:
  "determineFinalSuccess contents =
     Inr (case decidingOccurrence contents of
            None \<Rightarrow> False
          | Some c \<Rightarrow> parseInt (capOf c 1) = parseInt (capOf c 2) \<and> 0 < digitsVal (capOf c 2))
   \<and> (\<forall>c. decidingOccurrence contents = Some c
          \<and> digitsVal (capOf c 1) < 2 ^ 53 \<and> digitsVal (capOf c 2) < 2 ^ 53 \<longrightarrow>
        determineFinalSuccess contents =
          Inr (digitsVal (capOf c 1) = digitsVal (capOf c 2) \<and> 0 < digitsVal (capOf c 2)))
   \<and> (parsePassFailFromLogText contents = Inr (Some True)) = (determineFinalSuccess contents = Inr True)"
proof -
  have 1: "determineFinalSuccess contents =
     Inr (case decidingOccurrence contents of
            None \<Rightarrow> False
          | Some c \<Rightarrow> parseInt (capOf c 1) = parseInt (capOf c 2) \<and> 0 < digitsVal (capOf c 2))"
    by (simp add: determineFinalSuccess_eq verdict_eq split: option.splits)
  have 2: "\<forall>c. decidingOccurrence contents = Some c
          \<and> digitsVal (capOf c 1) < 2 ^ 53 \<and> digitsVal (capOf c 2) < 2 ^ 53 \<longrightarrow>
        determineFinalSuccess contents =
          Inr (digitsVal (capOf c 1) = digitsVal (capOf c 2) \<and> 0 < digitsVal (capOf c 2))"
    by (simp add: 1 parseInt_def toDouble_exact)
  have "decidingOccurrence [] = None"
    by (simp add: decidingOccurrence_def lastOccurrence_def matchAll_def matchAllFrom.simps
        totalTestsRe_def passedLineRe_def js_def)
  then have 3: "(parsePassFailFromLogText contents = Inr (Some True)) = (determineFinalSuccess contents = Inr True)"
    by (cases "contents = []") (auto simp: parsePassFail_eq determineFinalSuccess_eq split: option.splits)
  from 1 2 3 show ?thesis by blast
qed


lemmas ev3 = ev matchAll_def matchAllFrom.simps lastOccurrence_def decidingOccurrence_def
  totalTestsRe_def passedLineRe_def digitsVal_def

lemma twoTotals_deciding:
  "decidingOccurrence twoTotals = Some [(2, js ''5''), (1, js ''5'')]"
  by (simp add: twoTotals_def ev3)

lemma zeroTotal_deciding:
  "decidingOccurrence (js ''Total tests: 0/0 passed'') = Some [(2, js ''0''), (1, js ''0'')]"
  by (simp add: ev3)

theorem determineFinalSuccess_witness:
  "determineFinalSuccess twoTotals = Inr True
   \<and> determineFinalSuccess (js ''Total tests: 0/0 passed'') = Inr False"
proof -
  have a: "determineFinalSuccess twoTotals = Inr True"
    using determineFinalSuccess_last_wins[of twoTotals] twoTotals_deciding
    by (simp add: capOf_def js_def digitsVal_def)
  have b: "determineFinalSuccess (js ''Total tests: 0/0 passed'') = Inr False"
    using determineFinalSuccess_last_wins[of "js ''Total tests: 0/0 passed''"] zeroTotal_deciding
    by (simp add: capOf_def js_def digitsVal_def)
  from a b show ?thesis by blast
qed

lemma big_deciding:
  "decidingOccurrence (js ''Total tests: 9007199254740993/9007199254740992 passed'')
     = Some [(2, js ''9007199254740992''), (1, js ''9007199254740993'')]"
  by (simp add: ev3)

lemma big_parseInt:
  "parseInt (js ''9007199254740993'') = parseInt (js ''9007199254740992'')"
  by (simp add: parseInt_def digitsVal_def js_def toDouble_def roundTo_def exactBelow_def infinityFrom_def
      bitlen.simps Let_def)

text \<open>
  The claim as stated fails past \<open>2 ^ 53\<close>: 9007199254740993 and 9007199254740992 are
  different integers and \<open>parseInt\<close> gives the same double for both, so the text counts
  as a success.
\<close>

theorem determineFinalSuccess_rounding:
  "determineFinalSuccess (js ''Total tests: 9007199254740993/9007199254740992 passed'') = Inr True
   \<and> digitsVal (js ''9007199254740993'') \<noteq> digitsVal (js ''9007199254740992'')"
proof -
  have "digitsVal (js ''9007199254740993'') \<noteq> digitsVal (js ''9007199254740992'')"
    by (simp add: digitsVal_def js_def)
  moreover have "0 < digitsVal (js ''9007199254740992'')"
    by (simp add: digitsVal_def js_def)
  ultimately show ?thesis using big_parseInt
    by (simp add: determineFinalSuccess_eq big_deciding verdict_eq capOf_def)
qed

section \<open>The invariant of the step reconstructor\<close>

lemma sameCore_inv: "sameCore st' st \<Longrightarrow> stepInv st \<Longrightarrow> stepInv st'"
  by (auto simp: sameCore_def stepInv_def split: option.splits)

lemma map_update_same:
  "f (g (xs ! i)) = f (xs ! i) \<Longrightarrow> map f (xs[i := g (xs ! i)]) = map f xs"
  by (cases "i < length xs") (simp_all add: map_update list_update_same_conv not_less list_update_beyond)

lemma updStep_fields [simp]:
  "totalIterations (traj (updStep i f st)) = totalIterations (traj st)"
  "toolCalls (traj (updStep i f st)) = toolCalls (traj st)"
  "errors (traj (updStep i f st)) = errors (traj st)"
  "currentIteration (updStep i f st) = currentIteration st"
  "currentStep (updStep i f st) = currentStep st"
  "collectingToolResult (updStep i f st) = collectingToolResult st"
  "toolResultBuffer (updStep i f st) = toolResultBuffer st"
  "length (steps (traj (updStep i f st))) = length (steps (traj st))"
  by (simp_all add: updStep_def)

lemma updStep_core:
  "(\<And>s. core (f s) = core s) \<Longrightarrow> map core (steps (traj (updStep i f st))) = map core (steps (traj st))"
  by (simp add: updStep_def map_update_same)

lemma setDetail_fields [simp]:
  "totalIterations (traj (setDetail i f st)) = totalIterations (traj st)"
  "toolCalls (traj (setDetail i f st)) = toolCalls (traj st)"
  "errors (traj (setDetail i f st)) = errors (traj st)"
  "currentIteration (setDetail i f st) = currentIteration st"
  "currentStep (setDetail i f st) = currentStep st"
  "collectingToolResult (setDetail i f st) = collectingToolResult st"
  "toolResultBuffer (setDetail i f st) = toolResultBuffer st"
  "length (steps (traj (setDetail i f st))) = length (steps (traj st))"
  by (simp_all add: setDetail_def)

lemma setDetail_core [simp]:
  "map core (steps (traj (setDetail i f st))) = map core (steps (traj st))"
  unfolding setDetail_def by (rule updStep_core) (simp add: core_def)

lemma sameCore_refl [simp]: "sameCore st st"
  by (simp add: sameCore_def)

lemma sameCore_setDetail [simp]: "sameCore (setDetail i f st) st"
  by (simp add: sameCore_def)

lemma sameCore_collectRule [simp]: "sameCore (collectRule st i line) st"
  by (simp add: sameCore_def collectRule_def updStep_core core_def)

lemma sameCore_successRule [simp]: "sameCore (successRule st i line) st"
  by (simp add: sameCore_def successRule_def Let_def updStep_core core_def split: option.splits)

lemma sameCore_errorRule [simp]: "sameCore (errorRule st i line) st"
  by (simp add: sameCore_def errorRule_def Let_def updStep_core core_def)

lemma sameCore_ifI:
  "(c \<Longrightarrow> sameCore a st) \<Longrightarrow> (\<not> c \<Longrightarrow> sameCore b st) \<Longrightarrow> sameCore (if c then a else b) st"
  by simp

lemma sameCore_optI:
  "sameCore a st \<Longrightarrow> (\<And>v. sameCore (f v) st) \<Longrightarrow> sameCore (case x of None \<Rightarrow> a | Some v \<Rightarrow> f v) st"
  by (cases x) simp_all

lemma sameCore_stepRules: "sameCore (stepRules upper st i line) st"
  unfolding stepRules_def
  by (intro sameCore_ifI sameCore_optI sameCore_refl sameCore_setDetail sameCore_collectRule
        sameCore_successRule sameCore_errorRule)

lemma elemAt_nth: "i < length xs \<Longrightarrow> elemAt xs i = Inr (xs ! i)"
proof (induction xs arbitrary: i)
  case Nil
  then show ?case by simp
next
  case (Cons x xs)
  then show ?case by (cases i) simp_all
qed

lemma splitAcc_nonempty: "splitAcc sep acc s \<noteq> []"
proof (induction sep acc s rule: splitAcc.induct)
  case (1 sep acc s)
  then show ?case by (subst splitAcc.simps) auto
qed

lemma splitAcc_includes:
  "sep \<noteq> [] \<Longrightarrow> includesStr s sep \<Longrightarrow> 2 \<le> length (splitAcc sep acc s)"
proof (induction sep acc s rule: splitAcc.induct)
  case (1 sep acc s)
  show ?case
  proof (cases s)
    case Nil
    with 1(3,4) show ?thesis by (cases sep) simp_all
  next
    case (Cons x xs)
    show ?thesis
    proof (cases "startsWith s sep")
      case True
      have "splitAcc sep [] (drop (length sep) s) \<noteq> []" by (rule splitAcc_nonempty)
      then have "1 \<le> length (splitAcc sep [] (drop (length sep) s))"
        by (simp add: Suc_le_eq)
      then show ?thesis using True Cons 1(3) by (subst splitAcc.simps) simp
    next
      case False
      with Cons 1(4) have "includesStr (tl s) sep" by simp
      with 1(2) False Cons 1(3) have "2 \<le> length (splitAcc sep (hd s # acc) (tl s))" by simp
      then show ?thesis using False Cons by (subst splitAcc.simps) simp
    qed
  qed
qed

lemma split_includes:
  "sep \<noteq> [] \<Longrightarrow> includesStr s sep \<Longrightarrow> \<exists>x. elemAt (split s sep) 1 = Inr x"
  using splitAcc_includes[of sep s "[]"] elemAt_nth[of 1 "split s sep"]
  by (simp add: split_def)

lemma datasetParts_frame:
  "\<exists>t'. datasetParts t parts = Inr t' \<and> steps t' = steps t
        \<and> totalIterations t' = totalIterations t \<and> toolCalls t' = toolCalls t \<and> errors t' = errors t"
proof (induction parts arbitrary: t)
  case Nil
  then show ?case by simp
next
  case (Cons part parts)
  show ?case
  proof (cases "includesStr part (js ''Model:'')")
    case True
    then obtain x where "elemAt (split part (js ''Model:'')) 1 = Inr x"
      using split_includes[of "js ''Model:''" part] by (auto simp: js_def)
    with True Cons[of "t\<lparr>modelName := trim x\<rparr>"] show ?thesis by auto
  next
    case False
    show ?thesis
    proof (cases "includesStr part (js ''Task:'')")
      case True
      then obtain x where "elemAt (split part (js ''Task:'')) 1 = Inr x"
        using split_includes[of "js ''Task:''" part] by (auto simp: js_def)
      with True False Cons[of "t\<lparr>taskName := trim x\<rparr>"] show ?thesis by auto
    next
      case F2: False
      with False Cons[of t] show ?thesis by auto
    qed
  qed
qed

lemma coreOk_mono: "a \<le> b \<Longrightarrow> coreOk a c \<Longrightarrow> coreOk b c"
  by (auto simp: coreOk_def split: prod.splits)

lemma stepInv_startRule: "stepInv st \<Longrightarrow> stepInv (startRule st rawLine)"
  by (simp add: stepInv_def startRule_def Let_def core_def coreOk_def js_def split: option.splits)

lemma stepInv_iterationRule: "stepInv st \<Longrightarrow> stepInv (iterationRule st line)"
  by (auto simp: stepInv_def iterationRule_def Let_def list_all_iff split: option.splits
      intro: coreOk_mono[rotated] max.coboundedI1)

lemma stepInv_toolCallRule:
  "stepInv st \<Longrightarrow> currentIteration st = Some it \<Longrightarrow> stepInv (toolCallRule st it rawLine line)"
  by (simp add: stepInv_def toolCallRule_def Let_def core_def coreOk_def split: option.splits)

lemma stepInv_stepRules: "stepInv st \<Longrightarrow> stepInv (stepRules upper st i line)"
  using sameCore_stepRules by (rule sameCore_inv)

lemma stepInv_datasetRule:
  "stepInv st \<Longrightarrow> \<exists>t. datasetParts (traj st) parts = Inr t \<and> stepInv (st\<lparr>traj := t\<rparr>)"
  using datasetParts_frame[of "traj st" parts] by (auto simp: stepInv_def split: option.splits)

lemma processLine_inv:
  assumes "stepInv st"
  shows "\<exists>st'. processLine upper st l = Inr st' \<and> stepInv st'"
proof -
  define line where "line = normalizeLine (trim l)"
  have others: "\<exists>st'. (case currentStep st of None \<Rightarrow> Inr st | Some i \<Rightarrow> Inr (stepRules upper st i line)) = Inr st' \<and> stepInv st'"
    using assms by (auto split: option.splits intro: stepInv_stepRules)
  from stepInv_datasetRule[OF assms] obtain t where
    t: "datasetParts (traj st) (split line (js '','')) = Inr t" "stepInv (st\<lparr>traj := t\<rparr>)" by blast
  show ?thesis
    unfolding processLine_def Let_def line_def[symmetric]
    using others t assms
    by (auto split: option.splits intro: stepInv_startRule stepInv_iterationRule stepInv_toolCallRule)
qed

lemma runLines_inv:
  "stepInv st \<Longrightarrow> \<exists>st'. runLines upper st ls = Inr st' \<and> stepInv st'"
proof (induction ls arbitrary: st)
  case Nil
  then show ?case by simp
next
  case (Cons l ls)
  from processLine_inv[OF Cons.prems, of upper l] obtain st1 where
    "processLine upper st l = Inr st1" "stepInv st1" by blast
  with Cons.IH[of st1] show ?case by auto
qed

section \<open>The trajectory assembler\<close>

lemma filenameMeta_frame:
  "\<exists>t'. filenameMeta fname t = Inr t' \<and> steps t' = steps t
        \<and> totalIterations t' = totalIterations t \<and> toolCalls t' = toolCalls t \<and> errors t' = errors t"
proof -
  define parts where "parts = split fname (js ''_'')"
  show ?thesis
  proof (cases "2 \<le> length parts")
    case False
    then show ?thesis by (simp add: filenameMeta_def parts_def[symmetric])
  next
    case True
    show ?thesis
    proof (cases "length parts = 2")
      case l2: True
      then have "elemAt parts 0 = Inr (parts ! 0)" "elemAt parts 1 = Inr (parts ! 1)"
        by (simp_all add: elemAt_nth)
      with l2 show ?thesis by (simp add: filenameMeta_def parts_def[symmetric])
    next
      case False
      with True have "elemAt parts (length parts - 1) = Inr (parts ! (length parts - 1))"
        by (simp add: elemAt_nth)
      with True False show ?thesis by (simp add: filenameMeta_def parts_def[symmetric])
    qed
  qed
qed

lemma stepInv_newState:
  "steps t = [] \<Longrightarrow> toolCalls t = 0 \<Longrightarrow> stepInv (newState t)"
  by (simp add: stepInv_def newState_def)

lemma parseLogFile_shape:
  "\<exists>t0 st. filenameMeta fname (newTrajectory fname) = Inr t0 \<and> steps t0 = []
     \<and> runLines upper (newState t0) (split contents [10]) = Inr st \<and> stepInv st
     \<and> parseLogFile upper fname contents =
         Inr ((traj st)\<lparr>testResults := parseTestResults contents,
                testsPassed := length (filter (\<lambda>t. status t = Pass) (parseTestResults contents)),
                totalTests := length (parseTestResults contents),
                labTrainingMetrics := parseLabTrainingMetrics contents,
                finalSuccess := (case decidingOccurrence contents of None \<Rightarrow> False | Some c \<Rightarrow> verdict c),
                duration := extractDuration contents,
                finalDiffs := extractDiffs contents\<rparr>)"
proof -
  from filenameMeta_frame[of fname "newTrajectory fname"] obtain t0 where
    t0: "filenameMeta fname (newTrajectory fname) = Inr t0" "steps t0 = []" "toolCalls t0 = 0"
    by (auto simp: newTrajectory_def)
  from runLines_inv[OF stepInv_newState[OF t0(2,3)], of upper "split contents [10]"] obtain st where
    st: "runLines upper (newState t0) (split contents [10]) = Inr st" "stepInv st" by blast
  show ?thesis
    using t0 st by (simp add: parseLogFile_def determineFinalSuccess_eq Let_def)
qed

lemma stepInv_steps:
  assumes "stepInv st" and "s \<in> set (steps (traj st))"
  shows "iteration s \<le> totalIterations (traj st)"
    and "type s = js ''start'' \<or> type s = js ''iteration''"
    and "type s = js ''iteration'' \<Longrightarrow> \<exists>n. toolCall s = Some n \<and> content s = js ''Executing '' @ n"
  using assms
  by (auto simp: stepInv_def list_all_iff coreOk_def core_def js_def split: option.splits)

lemma stepInv_toolCalls:
  "stepInv st \<Longrightarrow> toolCalls (traj st) = length (filter (\<lambda>s. type s = js ''iteration'') (steps (traj st)))"
  by (simp add: stepInv_def filter_map core_def comp_def)

lemma processLine_quiet:
  assumes "steps (traj st) = []" "currentStep st = None" "plainLine l" "processLine upper st l = Inr st'"
  shows "steps (traj st') = [] \<and> currentStep st' = None"
proof -
  define line where "line = normalizeLine (trim l)"
  from datasetParts_frame[of "traj st" "split line (js '','')"] obtain t where
    t: "datasetParts (traj st) (split line (js '','')) = Inr t" "steps t = steps (traj st)" by blast
  have it: "steps (traj (iterationRule st line)) = steps (traj st) \<and> currentStep (iterationRule st line) = currentStep st"
    by (simp add: iterationRule_def Let_def split: option.splits)
  from assms(3) have p: "\<not> includesStr line (js ''Starting benchmark run'')" "\<not> includesStr line (js ''HARNESS: Tool call'')"
    by (simp_all add: plainLine_def line_def Let_def)
  from assms(4) show ?thesis
    unfolding processLine_def Let_def line_def[symmetric]
    using p t it assms(1,2)
    by (auto split: if_splits)
qed

lemma runLines_quiet:
  "steps (traj st) = [] \<Longrightarrow> currentStep st = None \<Longrightarrow> list_all plainLine ls \<Longrightarrow>
     runLines upper st ls = Inr st' \<Longrightarrow> steps (traj st') = []"
proof (induction ls arbitrary: st)
  case Nil
  then show ?case by simp
next
  case (Cons l ls)
  from Cons.prems(4) obtain st1 where s1: "processLine upper st l = Inr st1" "runLines upper st1 ls = Inr st'"
    by (auto split: sum.splits)
  from processLine_quiet[OF Cons.prems(1,2) _ s1(1)] Cons.prems(3)
  have "steps (traj st1) = []" "currentStep st1 = None" by auto
  with Cons.IH[of st1] Cons.prems(3) s1(2) show ?case by auto
qed

lemma lineStep_none: "noTestLine l \<Longrightarrow> lineStep (trim l) rest = (None, 0)"
  by (simp add: noTestLine_def Let_def lineStep_def startBranch_def onlyBranch_def)

lemma parseTestLines_none: "list_all noTestLine ls \<Longrightarrow> parseTestLines ls = []"
  by (induction ls) (simp_all add: lineStep_none)

lemma sample_lines:
  "split sampleLog [10] = [js ''2025-01-01 Starting benchmark run'',
                     js ''HARNESS: Iteration 1 making LLM call'',
                     js ''12:00:01 HARNESS: Tool call 1: edit_file'',
                     js ''Tool 0 result success: False'',
                     js ''pass tasks/a.py::test_x: PASSED'',
                     js ''Total tests: 1/1 passed'']"
  by (simp add: sampleLog_def js_def split_def splitAcc.simps)

lemmas ev_step = ev split_def splitAcc.simps truthy_def afterLabel_def
  emoji_units_def emojiRe_def normalizeLine_def dateRe_def clockRe_def dateClockRe_def extractTimestamp_def
  updStep_def setDetail_def iterationRe_def toolCallRe_def editRe_def writingRe_def successRe_def
  startRule_def iterationRule_def toolCallRule_def collectRule_def successRule_def errorRule_def
  stepRules_def processLine_def asciiUpper_def asciiLower_def upperUnit_def lowerUnit_def
  parseInt_def digitsVal_def toDouble_def exactBelow_def noDetails_def newState_def

lemma sample_steps:
  assumes "steps t0 = []" "totalIterations t0 = 0" "toolCalls t0 = 0"
    and "runLines asciiUpper (newState t0) (split sampleLog [10]) = Inr st"
  shows "map type (steps (traj st)) = [js ''start'', js ''iteration''] \<and> map iteration (steps (traj st)) = [0, 1]
     \<and> totalIterations (traj st) = 1 \<and> toolCalls (traj st) = 1"
  using assms unfolding sample_lines by (auto simp add: Let_def ev_step one_enat_def)

lemmas ev_test = ev passRe_def failRe_def passStartRe_def failStartRe_def passOnlyRe_def failOnlyRe_def
  lineStep_def startBranch_def onlyBranch_def standalone_def mkResult_def

lemma sample_tests:
  "parseTestResults sampleLog = [\<lparr>name = js ''test_x'', status = Pass, fullName = js ''tasks/a.py::test_x''\<rparr>]"
  unfolding parseTestResults_def sample_lines by (simp add: ev_test)

lemma sample_run:
  "\<exists>t. parseLogFile asciiUpper sampleName sampleLog = Inr t
     \<and> map type (steps t) = [js ''start'', js ''iteration'']
     \<and> map iteration (steps t) = [0, 1]
     \<and> totalIterations t = 1 \<and> toolCalls t = 1
     \<and> testResults t = [\<lparr>name = js ''test_x'', status = Pass, fullName = js ''tasks/a.py::test_x''\<rparr>]"
proof -
  from filenameMeta_frame[of sampleName "newTrajectory sampleName"] obtain t0 where
    t0: "filenameMeta sampleName (newTrajectory sampleName) = Inr t0" "steps t0 = []"
        "totalIterations t0 = 0" "toolCalls t0 = 0"
    by (auto simp: newTrajectory_def)
  from runLines_inv[OF stepInv_newState[OF t0(2,4)], of asciiUpper "split sampleLog [10]"] obtain st where
    st: "runLines asciiUpper (newState t0) (split sampleLog [10]) = Inr st" by blast
  from sample_steps[OF t0(2,3,4) st] show ?thesis
    using t0(1) st by (simp add: parseLogFile_def Let_def determineFinalSuccess_eq sample_tests)
qed

lemma unmatched_hello: "unmatched (js ''hello'' @ [10] @ js ''world'')"
  by (simp add: unmatched_def plainLine_def noTestLine_def ev_step ev_test totalTestsRe_def passedLineRe_def matchAll_def matchAllFrom.simps)

text \<open>
  Claim C2. For every file name and every content (and every case conversion) the
  parser returns a trajectory: none of the branches that stand for a thrown exception
  or for a loop that never ends is taken. When the content matches none of the
  expected patterns, that trajectory has no steps, no test results, and a final success
  of false.
\<close>

theorem parseLogFile_total:
  "(\<exists>t. parseLogFile upper fname contents = Inr t)
   \<and> (unmatched contents \<longrightarrow>
        (\<exists>t. parseLogFile upper fname contents = Inr t
              \<and> finalSuccess t = False \<and> steps t = [] \<and> testResults t = []))"
proof -
  from parseLogFile_shape[of fname upper contents] obtain t0 st where
    t0: "steps t0 = []" and
    r: "runLines upper (newState t0) (split contents [10]) = Inr st" and
    p: "parseLogFile upper fname contents =
         Inr ((traj st)\<lparr>testResults := parseTestResults contents,
                testsPassed := length (filter (\<lambda>t. status t = Pass) (parseTestResults contents)),
                totalTests := length (parseTestResults contents),
                labTrainingMetrics := parseLabTrainingMetrics contents,
                finalSuccess := (case decidingOccurrence contents of None \<Rightarrow> False | Some c \<Rightarrow> verdict c),
                duration := extractDuration contents,
                finalDiffs := extractDiffs contents\<rparr>)"
    by blast
  have "finalSuccess t = False \<and> steps t = [] \<and> testResults t = []"
    if u: "unmatched contents" and t: "parseLogFile upper fname contents = Inr t" for t
  proof -
    from u have pl: "list_all plainLine (split contents [10])"
      and nt: "list_all noTestLine (split contents [10])"
      and d: "decidingOccurrence contents = None"
      by (simp_all add: unmatched_def list_all_iff decidingOccurrence_def lastOccurrence_def)
    have "steps (traj st) = []"
      using runLines_quiet[OF _ _ pl r] t0 by (simp add: newState_def)
    moreover have "parseTestResults contents = []"
      using nt by (simp add: parseTestResults_def parseTestLines_none)
    ultimately show ?thesis using p t d by auto
  qed
  with p show ?thesis by blast
qed

theorem parseLogFile_total_witness:
  "\<exists>t. parseLogFile asciiUpper (js ''x.log'') (js ''hello'' @ [10] @ js ''world'') = Inr t
        \<and> finalSuccess t = False \<and> steps t = [] \<and> testResults t = []"
  using parseLogFile_total[of asciiUpper "js ''x.log''" "js ''hello'' @ [10] @ js ''world''"] unmatched_hello
  by blast

text \<open>
  Claim C3. For every file name and content (and every case conversion) the parser
  returns a trajectory in which the total of iterations is at least the greatest
  iteration of a step (0 when there is no step), the number of passed tests is the
  number of test results with status pass, and the number of tests is the number of
  test results.
\<close>

theorem parseLogFile_result_invariant:
  "\<exists>t. parseLogFile upper fname contents = Inr t
     \<and> Max (insert 0 (iteration ` set (steps t))) \<le> totalIterations t
     \<and> testsPassed t = length (filter (\<lambda>r. status r = Pass) (testResults t))
     \<and> totalTests t = length (testResults t)"
proof -
  from parseLogFile_shape[of fname upper contents] obtain t0 st where
    st: "stepInv st" and
    p: "parseLogFile upper fname contents =
         Inr ((traj st)\<lparr>testResults := parseTestResults contents,
                testsPassed := length (filter (\<lambda>t. status t = Pass) (parseTestResults contents)),
                totalTests := length (parseTestResults contents),
                labTrainingMetrics := parseLabTrainingMetrics contents,
                finalSuccess := (case decidingOccurrence contents of None \<Rightarrow> False | Some c \<Rightarrow> verdict c),
                duration := extractDuration contents,
                finalDiffs := extractDiffs contents\<rparr>)"
    by blast
  have "Max (insert 0 (iteration ` set (steps (traj st)))) \<le> totalIterations (traj st)"
    using stepInv_steps(1)[OF st] by (subst Max_le_iff) auto
  with p show ?thesis by simp
qed

theorem parseLogFile_result_invariant_witness:
  "\<exists>t. parseLogFile asciiUpper sampleName sampleLog = Inr t
     \<and> map iteration (steps t) = [0, 1]
     \<and> Max (insert 0 (iteration ` set (steps t))) \<le> totalIterations t
     \<and> totalIterations t = 1
     \<and> length (testResults t) = 1
     \<and> testsPassed t = 1 \<and> totalTests t = 1"
  using parseLogFile_result_invariant[of asciiUpper sampleName sampleLog] sample_run
  by auto

text \<open>
  Claim C10. For every file name and content the parser returns a trajectory in which
  every step has type start or iteration, the tool call counter is the number of steps
  of type iteration, and every step of type iteration has the content "Executing "
  followed by its tool name.
\<close>

theorem parseLogFile_step_accounting:
  "\<exists>t. parseLogFile upper fname contents = Inr t
     \<and> (\<forall>s \<in> set (steps t). type s = js ''start'' \<or> type s = js ''iteration'')
     \<and> toolCalls t = length (filter (\<lambda>s. type s = js ''iteration'') (steps t))
     \<and> (\<forall>s \<in> set (steps t). type s = js ''iteration'' \<longrightarrow>
           (\<exists>n. toolCall s = Some n \<and> content s = js ''Executing '' @ n))"
proof -
  from parseLogFile_shape[of fname upper contents] obtain t0 st where
    st: "stepInv st" and
    p: "parseLogFile upper fname contents =
         Inr ((traj st)\<lparr>testResults := parseTestResults contents,
                testsPassed := length (filter (\<lambda>t. status t = Pass) (parseTestResults contents)),
                totalTests := length (parseTestResults contents),
                labTrainingMetrics := parseLabTrainingMetrics contents,
                finalSuccess := (case decidingOccurrence contents of None \<Rightarrow> False | Some c \<Rightarrow> verdict c),
                duration := extractDuration contents,
                finalDiffs := extractDiffs contents\<rparr>)"
    by blast
  show ?thesis
    using p stepInv_steps(2,3)[OF st] stepInv_toolCalls[OF st] by auto
qed

theorem parseLogFile_step_accounting_witness:
  "\<exists>t. parseLogFile asciiUpper sampleName sampleLog = Inr t
     \<and> map type (steps t) = [js ''start'', js ''iteration'']
     \<and> toolCalls t = 1
     \<and> (\<forall>s \<in> set (steps t). type s = js ''iteration'' \<longrightarrow>
           (\<exists>n. toolCall s = Some n \<and> content s = js ''Executing '' @ n))"
  using parseLogFile_step_accounting[of asciiUpper sampleName sampleLog] sample_run
  by auto

section \<open>The error counter\<close>

lemma includesStr_Nil [simp]: "p \<noteq> [] \<Longrightarrow> \<not> includesStr [] p"
  by (cases p) simp_all

lemma stepRules_later:
  assumes "\<not> earlierRule st line"
  shows "stepRules upper st i line =
     (if collectingToolResult st \<and> line \<noteq> [] then collectRule st i line
      else if includesStr line (js ''Tool 0 result success:'') then successRule st i line
      else if includesStr (upper line) (js ''ERROR'') then errorRule st i line
      else st)"
proof -
  have f: "includesStr line (js ''HARNESS: Edit target:'') = False"
    "includesStr line (js ''HARNESS: Edit instructions:'') = False"
    "includesStr line (js ''HARNESS: Line edits count:'') = False"
    "test False editRe line = False"
    "includesStr line (js ''HARNESS: Python syntax validation passed'') = False"
    "includesStr line (js ''HARNESS: Python syntax error'') = False"
    "includesStr line (js ''HARNESS: SYNTAX ERROR at line'') = False"
    "includesStr line (js ''HARNESS: Changes applied:'') = False"
    "includesStr line (js ''HARNESS: Changes that would have been applied:'') = False"
    "includesStr line (js ''HARNESS: Attempted changes:'') = False"
    "(includesStr line (js ''HARNESS: Writing'') \<and> includesStr line (js ''characters to'')) = False"
    using assms by (auto simp: earlierRule_def)
  show ?thesis unfolding stepRules_def by (simp only: f if_False)
qed

lemma processLine_later:
  assumes "\<not> earlierRule st (normalizeLine (trim l))" "currentStep st = Some i" "trim l \<noteq> []"
  shows "processLine upper st l = Inr (stepRules upper st i (normalizeLine (trim l)))"
proof -
  define line where "line = normalizeLine (trim l)"
  have f: "includesStr line (js ''Starting benchmark run'') = False"
    "(includesStr line (js ''Dataset:'') \<and> includesStr line (js ''Agent:'') \<and> includesStr line (js ''Model:'')) = False"
    "(includesStr line (js ''HARNESS: Iteration'') \<and> includesStr line (js ''making LLM call'')) = False"
    using assms(1) by (auto simp: earlierRule_def line_def)
  have g: "includesStr line (js ''HARNESS: Tool call'') \<Longrightarrow> currentIteration st = None"
    using assms(1) by (auto simp: earlierRule_def line_def)
  show ?thesis
    unfolding processLine_def Let_def line_def[symmetric]
    using assms(2,3) g by (simp only: f if_False) (auto split: option.splits)
qed

lemma normalizeLine_Nil: "normalizeLine [] = []"
  by (simp add: normalizeLine_def emojiRe_def ev)

lemma atMostOne_refl [simp]: "atMostOne st st"
  by (simp add: atMostOne_def)

lemma atMostOne_setDetail [simp]: "atMostOne (setDetail i f st) st"
  by (simp add: atMostOne_def)

lemma atMostOne_collectRule [simp]: "atMostOne (collectRule st i line) st"
  by (simp add: atMostOne_def collectRule_def)

lemma atMostOne_successRule [simp]: "atMostOne (successRule st i line) st"
  by (simp add: atMostOne_def successRule_def Let_def split: option.splits)

lemma atMostOne_errorRule [simp]: "atMostOne (errorRule st i line) st"
  by (simp add: atMostOne_def errorRule_def Let_def)

lemma atMostOne_ifI:
  "(c \<Longrightarrow> atMostOne a st) \<Longrightarrow> (\<not> c \<Longrightarrow> atMostOne b st) \<Longrightarrow> atMostOne (if c then a else b) st"
  by simp

lemma atMostOne_optI:
  "atMostOne a st \<Longrightarrow> (\<And>v. atMostOne (f v) st) \<Longrightarrow> atMostOne (case x of None \<Rightarrow> a | Some v \<Rightarrow> f v) st"
  by (cases x) simp_all

lemma atMostOne_stepRules: "atMostOne (stepRules upper st i line) st"
  unfolding stepRules_def
  by (intro atMostOne_ifI atMostOne_optI atMostOne_refl atMostOne_setDetail atMostOne_collectRule
        atMostOne_successRule atMostOne_errorRule)

lemma processLine_atMostOne:
  assumes "processLine upper st l = Inr st'"
  shows "atMostOne st' st"
proof -
  define line where "line = normalizeLine (trim l)"
  have others: "(case currentStep st of None \<Rightarrow> Inr st | Some i \<Rightarrow> Inr (stepRules upper st i line)) = Inr st'
      \<Longrightarrow> atMostOne st' st"
    using atMostOne_stepRules by (auto split: option.splits)
  from datasetParts_frame[of "traj st" "split line (js '','')"] obtain t where
    t: "datasetParts (traj st) (split line (js '','')) = Inr t" "errors t = errors (traj st)" by blast
  have a: "atMostOne (startRule st (trim l)) st" by (simp add: atMostOne_def startRule_def Let_def)
  have b: "atMostOne (iterationRule st line) st"
    by (simp add: atMostOne_def iterationRule_def Let_def split: option.splits)
  have c: "atMostOne (toolCallRule st it (trim l) line) st" for it
    by (simp add: atMostOne_def toolCallRule_def Let_def split: option.splits)
  have d: "atMostOne (st\<lparr>traj := t\<rparr>) st" using t(2) by (simp add: atMostOne_def)
  from assms show ?thesis
    unfolding processLine_def Let_def line_def[symmetric]
    using others t(1) a b c d
    by (auto split: if_splits option.splits)
qed

text \<open>
  Claim C5, as amended. No line raises the error counter by more than one. A line to
  which none of rules 1 to 5 applies and that reports the tool's success
  ("Tool 0 result success: " and a word), read while a current step exists, is handled
  by one rule only, and which one depends on the state. When the reconstructor is not
  collecting a result, rule 6 fires: the step's success is set (true exactly when the
  word is "true" in any case), the error counter goes up by one when it is not true,
  the buffer is cleared, the collecting state is entered, and the step's error field is
  left alone, so the fall-back rule for ERROR has not fired. When the reconstructor is
  already collecting, rule 7 comes first in the code: the line joins the buffer, and
  neither the step's success nor the error counter changes.
\<close>

theorem processLine_success_line:
  "(processLine upper st l = Inr st' \<longrightarrow>
      errors (traj st) \<le> errors (traj st') \<and> errors (traj st') \<le> errors (traj st) + 1)
   \<and> (currentStep st = Some i \<and> i < length (steps (traj st))
        \<and> \<not> earlierRule st (normalizeLine (trim l))
        \<and> includesStr (normalizeLine (trim l)) (js ''Tool 0 result success:'')
        \<and> exec False successRe (normalizeLine (trim l)) = Some m \<longrightarrow>
      (\<exists>st2. processLine upper st l = Inr st2
         \<and> (if collectingToolResult st
             then errors (traj st2) = errors (traj st)
                \<and> success (steps (traj st2) ! i) = success (steps (traj st) ! i)
                \<and> error (steps (traj st2) ! i) = error (steps (traj st) ! i)
                \<and> toolResultBuffer st2 = toolResultBuffer st @ [normalizeLine (trim l)]
                \<and> toolResult (steps (traj st2) ! i) = toolResultBuffer st @ [normalizeLine (trim l)]
                \<and> collectingToolResult st2
             else errors (traj st2) =
                    errors (traj st) + (if asciiLower (grp m 1) = js ''true'' then 0 else 1)
                \<and> success (steps (traj st2) ! i) = Some (asciiLower (grp m 1) = js ''true'')
                \<and> error (steps (traj st2) ! i) = error (steps (traj st) ! i)
                \<and> toolResultBuffer st2 = []
                \<and> collectingToolResult st2)))"
  (is "?A \<and> (?H \<longrightarrow> ?B)")
proof (rule conjI)
  show ?A
  proof
    assume "processLine upper st l = Inr st'"
    from processLine_atMostOne[OF this]
    show "errors (traj st) \<le> errors (traj st') \<and> errors (traj st') \<le> errors (traj st) + 1"
      by (simp add: atMostOne_def)
  qed
  show "?H \<longrightarrow> ?B"
  proof
    define line where "line = normalizeLine (trim l)"
    assume ?H
    then have cur: "currentStep st = Some i" and i: "i < length (steps (traj st))"
      and early: "\<not> earlierRule st line"
      and inc: "includesStr line (js ''Tool 0 result success:'')"
      and m: "exec False successRe line = Some m"
      by (simp_all add: line_def)
    from inc have ne: "line \<noteq> []" by (auto simp: js_def)
    then have tl: "trim l \<noteq> []" using normalizeLine_Nil by (auto simp: line_def)
    have p: "processLine upper st l = Inr (stepRules upper st i line)"
      using processLine_later[of st l i upper] early cur tl by (simp add: line_def)
    have r: "stepRules upper st i line =
        (if collectingToolResult st then collectRule st i line else successRule st i line)"
      using stepRules_later[OF early, of upper i] ne inc by simp
    show ?B
      unfolding line_def[symmetric] p r
      using i m by (simp add: collectRule_def successRule_def updStep_def Let_def)
  qed
qed

lemma afterToolCall_eval:
  "currentStep afterToolCall = Some 0" "length (steps (traj afterToolCall)) = 1"
  "errors (traj afterToolCall) = 0" "\<not> collectingToolResult afterToolCall"
  "currentIteration afterToolCall = Some 1" "map error (steps (traj afterToolCall)) = [None]"
  "map success (steps (traj afterToolCall)) = [None]"
  by (simp_all add: afterToolCall_def newTrajectory_def Let_def ev_step one_enat_def)

lemma failLine_norm:
  "normalizeLine (trim (js ''Tool 0 result success: False (ERROR)'')) = js ''Tool 0 result success: False (ERROR)''"
  by (simp add: normalizeLine_def emoji_units_def emojiRe_def ev)

lemma failLine_exec:
  "\<exists>m. exec False successRe (js ''Tool 0 result success: False (ERROR)'') = Some m \<and> grp m 1 = js ''False''"
  by (simp add: successRe_def ev)

lemma failLine_early: "\<not> earlierRule afterToolCall (js ''Tool 0 result success: False (ERROR)'')"
  by (simp add: earlierRule_def editRe_def ev)

lemma failLine_includes:
  "includesStr (js ''Tool 0 result success: False (ERROR)'') (js ''Tool 0 result success:'')"
  "includesStr (asciiUpper (js ''Tool 0 result success: False (ERROR)'')) (js ''ERROR'')"
  by (simp_all add: ev asciiUpper_def upperUnit_def)

theorem processLine_success_line_witness:
  "\<exists>st2. processLine asciiUpper afterToolCall (js ''Tool 0 result success: False (ERROR)'') = Inr st2
     \<and> errors (traj afterToolCall) = 0 \<and> errors (traj st2) = 1
     \<and> success (steps (traj st2) ! 0) = Some False
     \<and> error (steps (traj st2) ! 0) = None
     \<and> toolResultBuffer st2 = [] \<and> collectingToolResult st2"
proof -
  from failLine_exec obtain m where
    m: "exec False successRe (js ''Tool 0 result success: False (ERROR)'') = Some m" "grp m 1 = js ''False''"
    by blast
  have l: "asciiLower (js ''False'') \<noteq> js ''true''" by (simp add: asciiLower_def lowerUnit_def js_def)
  have e: "error (steps (traj afterToolCall) ! 0) = None"
    using afterToolCall_eval(2,6) by (cases "steps (traj afterToolCall)") simp_all
  show ?thesis
    using processLine_success_line[where upper = asciiUpper and st = afterToolCall
        and l = "js ''Tool 0 result success: False (ERROR)''" and i = 0 and m = m]
      m l e afterToolCall_eval(1-4) failLine_norm failLine_early failLine_includes(1)
    by auto
qed

lemma twoFailures_lines:
  "split twoFailures [10] = [js ''HARNESS: Iteration 1 making LLM call'',
                       js ''HARNESS: Tool call 1: edit_file'',
                       js ''Tool 0 result success: False'',
                       js ''Tool 0 result success: False'']"
  by (simp add: twoFailures_def js_def split_def splitAcc.simps)

lemma twoFailures_steps:
  assumes "steps t0 = []" "errors t0 = 0"
    and "runLines asciiUpper (newState t0) (split twoFailures [10]) = Inr st"
  shows "errors (traj st) = 1 \<and> map success (steps (traj st)) = [Some False]
     \<and> map toolResult (steps (traj st)) = [[js ''Tool 0 result success: False'']]"
  using assms unfolding twoFailures_lines by (auto simp add: Let_def ev_step one_enat_def)

text \<open>
  The claim as stated fails in the collecting state: of two failure lines for the same
  step, only the first is counted; the second is collected as a result line.
\<close>

theorem parseLogFile_failure_line_collected:
  "\<exists>t. parseLogFile asciiUpper (js ''x.log'') twoFailures = Inr t
     \<and> errors t = 1
     \<and> map success (steps t) = [Some False]
     \<and> map toolResult (steps t) = [[js ''Tool 0 result success: False'']]"
proof -
  from filenameMeta_frame[of "js ''x.log''" "newTrajectory (js ''x.log'')"] obtain t0 where
    t0: "filenameMeta (js ''x.log'') (newTrajectory (js ''x.log'')) = Inr t0" "steps t0 = []"
        "toolCalls t0 = 0" "errors t0 = 0"
    by (auto simp: newTrajectory_def)
  from runLines_inv[OF stepInv_newState[OF t0(2,3)], of asciiUpper "split twoFailures [10]"] obtain st where
    st: "runLines asciiUpper (newState t0) (split twoFailures [10]) = Inr st" by blast
  from twoFailures_steps[OF t0(2,4) st] show ?thesis
    using t0(1) st by (simp add: parseLogFile_def Let_def determineFinalSuccess_eq)
qed

end
